theory Spec2Isabelle
  imports Complex_Main
begin

section \<open>The traceroute prober of \<^verbatim>\<open>traceroute.py\<close>\<close>

text \<open>
  The class \<^verbatim>\<open>Tracer\<close> probes the path to a host: for TTL 1, 2, ... it opens a raw
  ICMP receiver and a UDP sender, sends one empty datagram, waits for one reply, prints one
  line and closes both sockets. The model below follows the source method by method.

  The operating system, the network, the clock, the random generator and the GeoIP database
  are outside the program. They are the record \<open>env\<close>: what each of them answers. The calls
  whose exceptions the source catches or re-raises (\<^verbatim>\<open>gethostbyname\<close>, \<^verbatim>\<open>bind\<close>,
  \<^verbatim>\<open>recvfrom\<close>, the database reader) can fail in the model, and so can the two calls
  that stand between the creation of the receiver and the \<^verbatim>\<open>try\<close> block:
  \<^verbatim>\<open>setsockopt(IP_TTL, ttl)\<close> in \<^verbatim>\<open>create_sender\<close>, which the system refuses for every
  TTL above 255, and \<^verbatim>\<open>sendto\<close>. The source has no handler for these two, so their
  exception leaves the loop. The answers that belong to one pass of the loop are indexed by
  the TTL of that pass, which the loop never repeats.

  Timestamps are Python floats in the source. A float is the rational it denotes, and each
  operation on floats is the exact operation followed by the rounding to the nearest double
  (\<open>binary64\<close>), ties to even; overflow and subnormal numbers are not modelled.
\<close>

subsection \<open>Data\<close>

text \<open>\<open>IOError\<close> is what the source raises itself, with its message; \<open>OSError\<close> is the
  exception of a socket call that the source does not catch, with the text of the error.\<close>

datatype exception = IOError string | OSError string

text \<open>What \<^verbatim>\<open>self.geoip_reader.city(ip)\<close> does: a response with the city name, the country
  name (either may be \<^verbatim>\<open>None\<close>) and the texts that formatting gives for the latitude and the
  longitude, or \<^verbatim>\<open>AddressNotFoundError\<close>, or another exception with its text.\<close>

datatype geo_lookup =
    City_response "string option" "string option" string string
  | AddressNotFoundError
  | Other_exception string

record tracer =
  dst :: string
  hops :: int
  ttl :: int
  geoip_db_path :: string
  port :: int
  geoip_reader :: "string \<Rightarrow> geo_lookup"

text \<open>What \<^verbatim>\<open>receiver.recvfrom(1024)\<close> followed by \<^verbatim>\<open>time.time()\<close> gives: the address pair
  of the sender and the end timestamp, or \<^verbatim>\<open>socket.error\<close> (a timeout included).\<close>

datatype recv_result = Recv_ok string int rat | Recv_error

record env =
  entropy :: nat
  open_reader :: "string \<Rightarrow> (string \<Rightarrow> geo_lookup) option"
  gethostbyname :: "string \<Rightarrow> string + string"
  clock :: "int \<Rightarrow> rat"
  bind_error :: "int \<Rightarrow> string option"
  ttl_error :: "int \<Rightarrow> string option"
  send_error :: "int \<Rightarrow> string option"
  recvfrom :: "int \<Rightarrow> recv_result"

text \<open>The sockets of the process: how many socket objects were created so far (the next
  handle) and which handles are open.\<close>

record os =
  nsock :: nat
  open_socks :: "nat set"

datatype sock_type = SOCK_RAW | SOCK_DGRAM

datatype proto = IPPROTO_ICMP | IPPROTO_UDP

text \<open>The calls the program makes on the outside world, in order. \<open>Bind\<close>,
  \<open>Setsockopt_TTL\<close> and \<open>Sendto\<close> carry the error text when the call failed,
  \<open>Recvfrom\<close> the address it returned, if any.
  \<open>Print_reply t ip ms loc\<close> is \<^verbatim>\<open>print('{:<4} {} {} ms {}'.format(t, ip, ms, loc))\<close> and
  \<open>Print_noreply t\<close> is \<^verbatim>\<open>print('{:<4} *'.format(t))\<close>.\<close>

datatype event =
    Print_text string
  | Print_banner string string int
  | Socket nat sock_type proto
  | Setsockopt_RCVTIMEO nat int int
  | Bind nat string int "string option"
  | Setsockopt_TTL nat int "string option"
  | Sendto nat string string int "string option"
  | Recvfrom nat nat "(string \<times> int) option"
  | Close nat
  | Print_reply int string rat string
  | Print_noreply int

text \<open>How a pass of the loop ends: it goes on, it leaves by one of the two
  \<^verbatim>\<open>break\<close>s, or an exception leaves the loop.\<close>

datatype step = Continue | Break_destination | Break_limit | Raised exception

record result =
  events :: "event list"
  obj :: tracer
  sockets :: os
  status :: step

subsection \<open>Construction\<close>

definition port_range :: "int list" where
  "port_range = [33434..33534]"

definition random_choice :: "env \<Rightarrow> 'a list \<Rightarrow> 'a" where
  "random_choice e xs = xs ! (entropy e mod length xs)"

definition msg_db_not_found :: string where
  "msg_db_not_found =
     ''N'' @ [CHR 0xE3] @ ''o foi poss'' @ [CHR 0xED]
       @ ''vel encontrar o banco de dados GeoIP no caminho: ''"

definition Tracer_init ::
  "env \<Rightarrow> string \<Rightarrow> int \<Rightarrow> string \<Rightarrow> event list \<times> (exception + tracer)" where
  "Tracer_init e d h path =
     (let p = random_choice e port_range;
          pr1 = Print_text (''Tentando abrir o banco de dados GeoIP em '' @ path)
      in case open_reader e path of
           None \<Rightarrow> ([pr1], Inl (IOError (msg_db_not_found @ path)))
         | Some rd \<Rightarrow>
             ([pr1, Print_text (''Banco de dados GeoIP carregado com sucesso de '' @ path)],
              Inr \<lparr>dst = d, hops = h, ttl = 1, geoip_db_path = path, port = p,
                   geoip_reader = rd\<rparr>))"

subsection \<open>The sockets\<close>

definition msg_receiver :: string where
  "msg_receiver =
     ''N'' @ [CHR 0xE3] @ ''o foi poss'' @ [CHR 0xED] @ ''vel encontrar socket receptor: ''"

definition new_socket :: "os \<Rightarrow> nat \<times> os" where
  "new_socket k = (nsock k, \<lparr>nsock = Suc (nsock k), open_socks = insert (nsock k) (open_socks k)\<rparr>)"

definition close :: "nat \<Rightarrow> os \<Rightarrow> os" where
  "close s k = k\<lparr>open_socks := open_socks k - {s}\<rparr>"

definition create_receiver ::
  "env \<Rightarrow> tracer \<Rightarrow> os \<Rightarrow> event list \<times> os \<times> (exception + nat)" where
  "create_receiver e self k =
     (let (s, k1) = new_socket k;
          calls = [Socket s SOCK_RAW IPPROTO_ICMP, Setsockopt_RCVTIMEO s 5 0]
      in case bind_error e (ttl self) of
           Some err \<Rightarrow>
             (calls @ [Bind s [] (port self) (Some err)], k1, Inl (IOError (msg_receiver @ err)))
         | None \<Rightarrow> (calls @ [Bind s [] (port self) None], k1, Inr s))"

text \<open>What \<^verbatim>\<open>s.setsockopt(socket.IPPROTO_IP, socket.IP_TTL, t)\<close> raises, if anything: the
  system refuses a TTL above 255 with "invalid argument"; below that the environment says.\<close>

definition einval :: string where
  "einval = ''[Errno 22] Invalid argument''"

definition setsockopt_ttl_error :: "env \<Rightarrow> int \<Rightarrow> string option" where
  "setsockopt_ttl_error e t = (if 255 < t then Some einval else ttl_error e t)"

definition create_sender ::
  "env \<Rightarrow> tracer \<Rightarrow> os \<Rightarrow> event list \<times> os \<times> (exception + nat)" where
  "create_sender e self k =
     (let (s, k1) = new_socket k;
          calls = [Socket s SOCK_DGRAM IPPROTO_UDP]
      in case setsockopt_ttl_error e (ttl self) of
           Some err \<Rightarrow> (calls @ [Setsockopt_TTL s (ttl self) (Some err)], k1, Inl (OSError err))
         | None \<Rightarrow> (calls @ [Setsockopt_TTL s (ttl self) None], k1, Inr s))"

subsection \<open>The location text\<close>

definition str_opt :: "string option \<Rightarrow> string" where
  "str_opt x = (case x of None \<Rightarrow> ''None'' | Some s \<Rightarrow> s)"

definition truthy :: "string option \<Rightarrow> bool" where
  "truthy x = (case x of None \<Rightarrow> False | Some s \<Rightarrow> s \<noteq> [])"

definition msg_unknown :: string where
  "msg_unknown = ''Localiza'' @ [CHR 0xE7, CHR 0xE3] @ ''o desconhecida''"

definition msg_geo_error :: string where
  "msg_geo_error = ''Erro ao obter localiza'' @ [CHR 0xE7, CHR 0xE3] @ ''o: ''"

definition get_geoip :: "tracer \<Rightarrow> string \<Rightarrow> string" where
  "get_geoip self ip =
     (case geoip_reader self ip of
        City_response city country latitude longitude \<Rightarrow>
          (if truthy city
           then str_opt city @ '', '' @ str_opt country
                  @ '' (Lat: '' @ latitude @ '', Lon: '' @ longitude @ '')''
           else str_opt country @ '' (Lat: '' @ latitude @ '', Lon: '' @ longitude @ '')'')
      | AddressNotFoundError \<Rightarrow> msg_unknown
      | Other_exception err \<Rightarrow> msg_geo_error @ err)"

subsection \<open>Floats\<close>

text \<open>The nearest integer, a tie going to the even one.\<close>

definition round_half_even :: "rat \<Rightarrow> int" where
  "round_half_even y =
     (let f = \<lfloor>y\<rfloor>; d = y - of_int f
      in if d < 1 / 2 then f else if 1 / 2 < d then f + 1 else if even f then f else f + 1)"

text \<open>The exponent of a positive rational: the \<open>n\<close> with \<open>2\<^sup>n \<le> x < 2\<^sup>n\<^sup>+\<^sup>1\<close>.\<close>

function halvings :: "rat \<Rightarrow> int" where
  "halvings x = (if 2 \<le> x then halvings (x / 2) + 1 else 0)"
  by pat_completeness auto

termination
proof (relation "measure (\<lambda>x. nat \<lfloor>x\<rfloor>)")
  show "wf (measure (\<lambda>x::rat. nat \<lfloor>x\<rfloor>))"
    by simp
next
  fix x :: rat
  assume "2 \<le> x"
  then have "x / 2 \<le> x - 1"
    by simp
  then have "\<lfloor>x / 2\<rfloor> \<le> \<lfloor>x - 1\<rfloor>"
    by (rule floor_mono)
  moreover have "1 \<le> \<lfloor>x\<rfloor>"
    using \<open>2 \<le> x\<close> by linarith
  ultimately show "(x / 2, x) \<in> measure (\<lambda>x. nat \<lfloor>x\<rfloor>)"
    by simp
qed

function doublings :: "rat \<Rightarrow> int" where
  "doublings x = (if 0 < x \<and> x < 1 then doublings (2 * x) - 1 else 0)"
  by pat_completeness auto

termination
proof (relation "measure (\<lambda>x. nat \<lfloor>1 / x\<rfloor>)")
  show "wf (measure (\<lambda>x::rat. nat \<lfloor>1 / x\<rfloor>))"
    by simp
next
  fix x :: rat
  assume a: "0 < x \<and> x < 1"
  then have "1 < 1 / x"
    by simp
  then have n: "1 \<le> \<lfloor>1 / x\<rfloor>"
    by linarith
  have "1 / x < of_int \<lfloor>1 / x\<rfloor> + 1"
    by linarith
  then have "(1 / x) / 2 < (of_int \<lfloor>1 / x\<rfloor> + 1) / 2"
    by simp
  also have "\<dots> \<le> of_int \<lfloor>1 / x\<rfloor>"
    using n by simp
  finally have "1 / (2 * x) < of_int \<lfloor>1 / x\<rfloor>"
    by simp
  then have "\<lfloor>1 / (2 * x)\<rfloor> < \<lfloor>1 / x\<rfloor>"
    by (simp only: floor_less_iff)
  with n show "(2 * x, x) \<in> measure (\<lambda>x. nat \<lfloor>1 / x\<rfloor>)"
    by simp
qed

declare halvings.simps [simp del] doublings.simps [simp del]

definition exponent :: "rat \<Rightarrow> int" where
  "exponent x = (if 1 \<le> x then halvings x else doublings x)"

definition pow2 :: "int \<Rightarrow> rat" where
  "pow2 n = (if 0 \<le> n then 2 ^ nat n else 1 / 2 ^ nat (- n))"

text \<open>The double nearest to a rational, a tie going to the even significand of 53 bits.\<close>

definition binary64 :: "rat \<Rightarrow> rat" where
  "binary64 x =
     (if x = 0 then 0
      else (let u = pow2 (exponent \<bar>x\<bar> - 52)
            in of_int (round_half_even (x / u)) * u))"

definition float_sub :: "rat \<Rightarrow> rat \<Rightarrow> rat" where
  "float_sub a b = binary64 (a - b)"

definition float_mul :: "rat \<Rightarrow> rat \<Rightarrow> rat" where
  "float_mul a b = binary64 (a * b)"

text \<open>\<^verbatim>\<open>round(x, n)\<close> on a float: the decimal with \<open>n\<close> places nearest to the exact value of
  \<open>x\<close>, a tie going to the even one, and then the double nearest to that decimal.\<close>

definition py_round :: "rat \<Rightarrow> nat \<Rightarrow> rat" where
  "py_round x n = binary64 (of_int (round_half_even (x * 10 ^ n)) / 10 ^ n)"

subsection \<open>The probing loop\<close>

text \<open>The end of a pass that did not reach the destination: \<^verbatim>\<open>self.ttl += 1\<close>, then the
  test against \<^verbatim>\<open>self.hops\<close>.\<close>

definition next_ttl :: "event list \<Rightarrow> tracer \<Rightarrow> os \<Rightarrow> result" where
  "next_ttl out self k =
     (let self' = self\<lparr>ttl := ttl self + 1\<rparr>
      in \<lparr>events = out, obj = self', sockets = k,
          status = (if hops self' < ttl self' then Break_limit else Continue)\<rparr>)"

text \<open>One pass of \<^verbatim>\<open>while True\<close>. The receiver, the sender and the send come before the
  \<^verbatim>\<open>try\<close>: an exception of one of them leaves the pass at once, without the closes of the
  \<^verbatim>\<open>finally\<close> block. The address pair that \<^verbatim>\<open>recvfrom\<close> returns is a non-empty tuple,
  so \<^verbatim>\<open>if addr\<close> holds exactly when the read succeeded.\<close>

definition iteration :: "env \<Rightarrow> string \<Rightarrow> tracer \<Rightarrow> os \<Rightarrow> result" where
  "iteration e dst_ip self k =
     (let start_time = clock e (ttl self)
      in case create_receiver e self k of
           (calls_r, k1, Inl exc) \<Rightarrow>
             \<lparr>events = calls_r, obj = self, sockets = k1, status = Raised exc\<rparr>
         | (calls_r, k1, Inr receiver) \<Rightarrow>
             (case create_sender e self k1 of
                (calls_s, k2, Inl exc) \<Rightarrow>
                  \<lparr>events = calls_r @ calls_s, obj = self, sockets = k2, status = Raised exc\<rparr>
              | (calls_s, k2, Inr sender) \<Rightarrow>
                  (case send_error e (ttl self) of
                     Some err \<Rightarrow>
                       \<lparr>events = calls_r @ calls_s
                          @ [Sendto sender [] (dst self) (port self) (Some err)],
                        obj = self, sockets = k2, status = Raised (OSError err)\<rparr>
                   | None \<Rightarrow>
                       (let send = [Sendto sender [] (dst self) (port self) None];
                            k3 = close sender (close receiver k2)
                        in case recvfrom e (ttl self) of
                             Recv_ok ip p end_time \<Rightarrow>
                               (let time_cost =
                                      py_round (float_mul (float_sub end_time start_time) 1000) 2;
                                    location = get_geoip self ip;
                                    out = calls_r @ calls_s @ send
                                      @ [Recvfrom receiver 1024 (Some (ip, p)),
                                         Close receiver, Close sender,
                                         Print_reply (ttl self) ip time_cost location]
                                in if ip = dst_ip
                                   then \<lparr>events = out, obj = self, sockets = k3,
                                         status = Break_destination\<rparr>
                                   else next_ttl out self k3)
                           | Recv_error \<Rightarrow>
                               next_ttl
                                 (calls_r @ calls_s @ send
                                    @ [Recvfrom receiver 1024 None, Close receiver,
                                       Close sender, Print_noreply (ttl self)])
                                 self k3))))"

lemma iteration_Continue:
  assumes "status (iteration e d self k) = Continue"
  shows "ttl (obj (iteration e d self k)) = ttl self + 1"
    and "hops (obj (iteration e d self k)) = hops self"
    and "ttl self < hops self"
  using assms
  by (auto simp: iteration_def create_receiver_def create_sender_def new_socket_def next_ttl_def
      Let_def split: option.splits recv_result.splits if_splits)

function loop :: "env \<Rightarrow> string \<Rightarrow> tracer \<Rightarrow> os \<Rightarrow> result" where
  "loop e dst_ip self k =
     (let r = iteration e dst_ip self k
      in if status r = Continue
         then (let r' = loop e dst_ip (obj r) (sockets r)
               in r'\<lparr>events := events r @ events r'\<rparr>)
         else r)"
  by pat_completeness auto

termination
proof (relation "measure (\<lambda>(e, d, self, k). nat (hops self - ttl self))")
  show "wf (measure (\<lambda>(e, d, self, k). nat (hops self - ttl self)))"
    by simp
next
  fix e :: env and dst_ip :: string and self :: tracer and k :: os and r :: result
  assume "r = iteration e dst_ip self k" and "status r = Continue"
  then show "((e, dst_ip, obj r, sockets r), (e, dst_ip, self, k))
      \<in> measure (\<lambda>(e, d, self, k). nat (hops self - ttl self))"
    using iteration_Continue [of e dst_ip self k] by simp
qed

declare loop.simps [simp del]

definition msg_dest :: string where
  "msg_dest = ''N'' @ [CHR 0xE3] @ ''o foi poss'' @ [CHR 0xED] @ ''vel encontrar o destino ''"

definition run :: "env \<Rightarrow> tracer \<Rightarrow> os \<Rightarrow> result" where
  "run e self k =
     (case gethostbyname e (dst self) of
        Inl err \<Rightarrow>
          \<lparr>events = [], obj = self, sockets = k,
           status = Raised (IOError (msg_dest @ dst self @ '' : '' @ err))\<rparr>
      | Inr dst_ip \<Rightarrow>
          (let r = loop e dst_ip self k
           in r\<lparr>events := Print_banner (dst self) dst_ip (hops self) # events r\<rparr>))"

subsection \<open>Reading a trace\<close>

text \<open>The TTLs of the hop lines printed, the lines themselves, the destinations of the
  \<^verbatim>\<open>sendto\<close> calls (payload, host, port), whether they succeeded or not, the TTLs that
  were set on senders, the ports bound, and the handles created, used for traffic and
  closed.\<close>

fun hop_ttls :: "event list \<Rightarrow> int list" where
  "hop_ttls [] = []"
| "hop_ttls (Print_reply t ip ms loc # evs) = t # hop_ttls evs"
| "hop_ttls (Print_noreply t # evs) = t # hop_ttls evs"
| "hop_ttls (ev # evs) = hop_ttls evs"

fun hop_lines :: "event list \<Rightarrow> event list" where
  "hop_lines [] = []"
| "hop_lines (Print_reply t ip ms loc # evs) = Print_reply t ip ms loc # hop_lines evs"
| "hop_lines (Print_noreply t # evs) = Print_noreply t # hop_lines evs"
| "hop_lines (ev # evs) = hop_lines evs"

fun sendto_targets :: "event list \<Rightarrow> (string \<times> string \<times> int) list" where
  "sendto_targets [] = []"
| "sendto_targets (Sendto s payload host p r # evs) = (payload, host, p) # sendto_targets evs"
| "sendto_targets (ev # evs) = sendto_targets evs"

fun probe_ttls :: "event list \<Rightarrow> int list" where
  "probe_ttls [] = []"
| "probe_ttls (Setsockopt_TTL s t None # evs) = t # probe_ttls evs"
| "probe_ttls (ev # evs) = probe_ttls evs"

fun bind_ports :: "event list \<Rightarrow> int list" where
  "bind_ports [] = []"
| "bind_ports (Bind s a p r # evs) = p # bind_ports evs"
| "bind_ports (ev # evs) = bind_ports evs"

fun created_socks :: "event list \<Rightarrow> nat list" where
  "created_socks [] = []"
| "created_socks (Socket s ty pr # evs) = s # created_socks evs"
| "created_socks (ev # evs) = created_socks evs"

fun used_socks :: "event list \<Rightarrow> nat list" where
  "used_socks [] = []"
| "used_socks (Sendto s payload host p r # evs) = s # used_socks evs"
| "used_socks (Recvfrom s n a # evs) = s # used_socks evs"
| "used_socks (ev # evs) = used_socks evs"

fun closed_socks :: "event list \<Rightarrow> nat list" where
  "closed_socks [] = []"
| "closed_socks (Close s # evs) = s # closed_socks evs"
| "closed_socks (ev # evs) = closed_socks evs"

text \<open>A trace with the location text of every reply line blanked.\<close>

fun blank_location :: "event \<Rightarrow> event" where
  "blank_location (Print_reply t ip ms loc) = Print_reply t ip ms []"
| "blank_location ev = ev"

text \<open>The error texts of the binds that failed.\<close>

fun bind_failures :: "event list \<Rightarrow> string list" where
  "bind_failures [] = []"
| "bind_failures (Bind s a p (Some err) # evs) = err # bind_failures evs"
| "bind_failures (ev # evs) = bind_failures evs"

subsection \<open>Shorthands\<close>

text \<open>The calls of a pass whose bind failed, of one whose sender could not be given its TTL,
  of one whose send failed, and of one that reached the read (the first six of these are
  \<open>setup_calls\<close>); and the sockets after each: one left open, two left open, none.\<close>

definition failed_calls :: "tracer \<Rightarrow> os \<Rightarrow> string \<Rightarrow> event list" where
  "failed_calls self k err =
     [Socket (nsock k) SOCK_RAW IPPROTO_ICMP, Setsockopt_RCVTIMEO (nsock k) 5 0,
      Bind (nsock k) [] (port self) (Some err)]"

definition no_sender_calls :: "tracer \<Rightarrow> os \<Rightarrow> string \<Rightarrow> event list" where
  "no_sender_calls self k err =
     [Socket (nsock k) SOCK_RAW IPPROTO_ICMP, Setsockopt_RCVTIMEO (nsock k) 5 0,
      Bind (nsock k) [] (port self) None,
      Socket (Suc (nsock k)) SOCK_DGRAM IPPROTO_UDP,
      Setsockopt_TTL (Suc (nsock k)) (ttl self) (Some err)]"

definition no_send_calls :: "tracer \<Rightarrow> os \<Rightarrow> string \<Rightarrow> event list" where
  "no_send_calls self k err =
     [Socket (nsock k) SOCK_RAW IPPROTO_ICMP, Setsockopt_RCVTIMEO (nsock k) 5 0,
      Bind (nsock k) [] (port self) None,
      Socket (Suc (nsock k)) SOCK_DGRAM IPPROTO_UDP,
      Setsockopt_TTL (Suc (nsock k)) (ttl self) None,
      Sendto (Suc (nsock k)) [] (dst self) (port self) (Some err)]"

definition probe_calls :: "tracer \<Rightarrow> os \<Rightarrow> (string \<times> int) option \<Rightarrow> event list" where
  "probe_calls self k a =
     [Socket (nsock k) SOCK_RAW IPPROTO_ICMP, Setsockopt_RCVTIMEO (nsock k) 5 0,
      Bind (nsock k) [] (port self) None,
      Socket (Suc (nsock k)) SOCK_DGRAM IPPROTO_UDP,
      Setsockopt_TTL (Suc (nsock k)) (ttl self) None,
      Sendto (Suc (nsock k)) [] (dst self) (port self) None,
      Recvfrom (nsock k) 1024 a, Close (nsock k), Close (Suc (nsock k))]"

definition setup_calls :: "tracer \<Rightarrow> os \<Rightarrow> event list" where
  "setup_calls self k =
     [Socket (nsock k) SOCK_RAW IPPROTO_ICMP, Setsockopt_RCVTIMEO (nsock k) 5 0,
      Bind (nsock k) [] (port self) None,
      Socket (Suc (nsock k)) SOCK_DGRAM IPPROTO_UDP,
      Setsockopt_TTL (Suc (nsock k)) (ttl self) None,
      Sendto (Suc (nsock k)) [] (dst self) (port self) None]"

definition after_probe :: "os \<Rightarrow> os" where
  "after_probe k =
     \<lparr>nsock = Suc (Suc (nsock k)), open_socks = open_socks k - {nsock k, Suc (nsock k)}\<rparr>"

definition after_failed :: "os \<Rightarrow> os" where
  "after_failed k = \<lparr>nsock = Suc (nsock k), open_socks = insert (nsock k) (open_socks k)\<rparr>"

definition after_aborted :: "os \<Rightarrow> os" where
  "after_aborted k =
     \<lparr>nsock = Suc (Suc (nsock k)),
      open_socks = insert (Suc (nsock k)) (insert (nsock k) (open_socks k))\<rparr>"

text \<open>Whether the pass with TTL \<open>t\<close> gets as far as the read: the receiver binds, the sender
  takes its TTL and the probe is sent.\<close>

definition reaches_read :: "env \<Rightarrow> int \<Rightarrow> bool" where
  "reaches_read e t =
     (bind_error e t = None \<and> setsockopt_ttl_error e t = None \<and> send_error e t = None)"

text \<open>The TTL of the last hop line of a result.\<close>

definition last_hop :: "result \<Rightarrow> int" where
  "last_hop r = (if status r = Break_destination then ttl (obj r) else ttl (obj r) - 1)"

text \<open>Whether the probe with TTL \<open>t\<close> is answered from the address \<open>d\<close>.\<close>

definition answered_by :: "env \<Rightarrow> string \<Rightarrow> int \<Rightarrow> bool" where
  "answered_by e d t = (case recvfrom e t of Recv_ok ip p te \<Rightarrow> ip = d | Recv_error \<Rightarrow> False)"

text \<open>The address a read returned, if any.\<close>

definition captured :: "recv_result \<Rightarrow> (string \<times> int) option" where
  "captured r = (case r of Recv_ok ip p te \<Rightarrow> Some (ip, p) | Recv_error \<Rightarrow> None)"

text \<open>Every open handle was handed out before.\<close>

definition os_ok :: "os \<Rightarrow> bool" where
  "os_ok k = (\<forall>s\<in>open_socks k. s < nsock k)"

subsection \<open>Sample sessions\<close>

text \<open>The scenario of the specification: \<^verbatim>\<open>example.test\<close> resolves to
  \<^verbatim>\<open>93.184.216.34\<close>, the database knows only the country, and only the probe with TTL 2 is
  answered, by the destination, after 12.34 ms.\<close>

definition ex_reader :: "string \<Rightarrow> geo_lookup" where
  "ex_reader ip = City_response None (Some ''Testland'') ''0.0'' ''0.0''"

definition ex_env :: env where
  "ex_env =
     \<lparr>entropy = 0,
      open_reader = (\<lambda>path. Some ex_reader),
      gethostbyname =
        (\<lambda>h. if h = ''example.test'' then Inr ''93.184.216.34'' else Inl ''unknown host''),
      clock = (\<lambda>t. 100),
      bind_error = (\<lambda>t. None),
      ttl_error = (\<lambda>t. None),
      send_error = (\<lambda>t. None),
      recvfrom =
        (\<lambda>t. if t = 2 then Recv_ok ''93.184.216.34'' 0 (100 + 1234 / 100000) else Recv_error)\<rparr>"

definition ex_tracer :: tracer where
  "ex_tracer =
     \<lparr>dst = ''example.test'', hops = 3, ttl = 1, geoip_db_path = ''GeoLite2-City.mmdb'',
      port = 33434, geoip_reader = ex_reader\<rparr>"

definition os0 :: os where
  "os0 = \<lparr>nsock = 0, open_socks = {}\<rparr>"

text \<open>A session in which no probe is answered, with a hop limit of 2.\<close>

definition quiet_env :: env where
  "quiet_env = ex_env\<lparr>recvfrom := (\<lambda>t. Recv_error)\<rparr>"

definition quiet_tracer :: tracer where
  "quiet_tracer = ex_tracer\<lparr>hops := 2\<rparr>"

text \<open>A session with a hop limit of 300 in which no probe is answered.\<close>

definition long_tracer :: tracer where
  "long_tracer = ex_tracer\<lparr>hops := 300\<rparr>"

text \<open>A session to the broadcast address with a hop limit of 1: the system refuses the
  send.\<close>

definition eacces :: string where
  "eacces = ''[Errno 13] Permission denied''"

definition bcast_env :: env where
  "bcast_env = quiet_env\<lparr>gethostbyname := Inr, send_error := (\<lambda>t. Some eacces)\<rparr>"

definition bcast_tracer :: tracer where
  "bcast_tracer = ex_tracer\<lparr>dst := ''255.255.255.255'', hops := 1\<rparr>"

text \<open>A session whose second bind fails.\<close>

definition busy_env :: env where
  "busy_env = quiet_env\<lparr>bind_error := (\<lambda>t. if t = 2 then Some ''Address already in use'' else None)\<rparr>"

text \<open>A reader that does not know \<^verbatim>\<open>10.0.0.1\<close> and fails on every other address.\<close>

definition broken_reader :: "string \<Rightarrow> geo_lookup" where
  "broken_reader ip =
     (if ip = ''10.0.0.1'' then AddressNotFoundError else Other_exception ''corrupt database'')"

text \<open>A session whose clock is set back by a second while the first probe is under way.\<close>

definition late_env :: env where
  "late_env = ex_env\<lparr>recvfrom := (\<lambda>t. Recv_ok ''10.0.0.1'' 0 99)\<rparr>"

section \<open>Properties\<close>

subsection \<open>Closed forms of one pass\<close>

lemma iteration_bind_failed:
  assumes "bind_error e (ttl self) = Some err"
  shows "iteration e d self k =
    \<lparr>events = failed_calls self k err, obj = self, sockets = after_failed k,
     status = Raised (IOError (msg_receiver @ err))\<rparr>"
  using assms
  by (simp add: iteration_def create_receiver_def new_socket_def failed_calls_def
      after_failed_def)

lemma iteration_no_sender:
  assumes "bind_error e (ttl self) = None" and "setsockopt_ttl_error e (ttl self) = Some err"
  shows "iteration e d self k =
    \<lparr>events = no_sender_calls self k err, obj = self, sockets = after_aborted k,
     status = Raised (OSError err)\<rparr>"
  using assms
  by (simp add: iteration_def create_receiver_def create_sender_def new_socket_def
      no_sender_calls_def after_aborted_def)

lemma iteration_no_send:
  assumes "bind_error e (ttl self) = None" and "setsockopt_ttl_error e (ttl self) = None"
    and "send_error e (ttl self) = Some err"
  shows "iteration e d self k =
    \<lparr>events = no_send_calls self k err, obj = self, sockets = after_aborted k,
     status = Raised (OSError err)\<rparr>"
  using assms
  by (simp add: iteration_def create_receiver_def create_sender_def new_socket_def
      no_send_calls_def after_aborted_def)

lemma close_both:
  "close (Suc (nsock k)) (close (nsock k)
     \<lparr>nsock = Suc (Suc (nsock k)),
      open_socks = insert (Suc (nsock k)) (insert (nsock k) (open_socks k))\<rparr>) = after_probe k"
  by (auto simp: close_def after_probe_def)

lemma iteration_no_reply:
  assumes "reaches_read e (ttl self)" and "recvfrom e (ttl self) = Recv_error"
  shows "iteration e d self k =
    next_ttl (probe_calls self k None @ [Print_noreply (ttl self)]) self (after_probe k)"
  using assms
  by (simp add: reaches_read_def iteration_def create_receiver_def create_sender_def
      new_socket_def probe_calls_def close_both)

lemma iteration_reply:
  assumes "reaches_read e (ttl self)" and "recvfrom e (ttl self) = Recv_ok ip p te"
  shows "iteration e d self k =
    (let out = probe_calls self k (Some (ip, p))
           @ [Print_reply (ttl self) ip
                (py_round (float_mul (float_sub te (clock e (ttl self))) 1000) 2)
                (get_geoip self ip)]
     in if ip = d
        then \<lparr>events = out, obj = self, sockets = after_probe k, status = Break_destination\<rparr>
        else next_ttl out self (after_probe k))"
  using assms
  by (simp add: reaches_read_def iteration_def create_receiver_def create_sender_def
      new_socket_def probe_calls_def close_both Let_def)

lemmas iteration_forms =
  iteration_bind_failed iteration_no_sender iteration_no_send iteration_no_reply
  iteration_reply

lemma iteration_read:
  assumes "reaches_read e (ttl self)"
  shows "iteration e d self k =
    (case recvfrom e (ttl self) of
       Recv_ok ip p te \<Rightarrow>
         (let out = probe_calls self k (Some (ip, p))
                @ [Print_reply (ttl self) ip
                     (py_round (float_mul (float_sub te (clock e (ttl self))) 1000) 2)
                     (get_geoip self ip)]
          in if ip = d
             then \<lparr>events = out, obj = self, sockets = after_probe k,
                   status = Break_destination\<rparr>
             else next_ttl out self (after_probe k))
     | Recv_error \<Rightarrow>
         next_ttl (probe_calls self k None @ [Print_noreply (ttl self)]) self (after_probe k))"
  using assms
  by (cases "recvfrom e (ttl self)") (simp_all add: iteration_no_reply iteration_reply)

subsection \<open>Facts about one pass\<close>

lemma iteration_cases [case_names failed no_sender no_send no_reply reply]:
  obtains err where "bind_error e (ttl self) = Some err"
  | err where "bind_error e (ttl self) = None" and "setsockopt_ttl_error e (ttl self) = Some err"
  | err where "bind_error e (ttl self) = None" and "setsockopt_ttl_error e (ttl self) = None"
      and "send_error e (ttl self) = Some err"
  | "reaches_read e (ttl self)" and "recvfrom e (ttl self) = Recv_error"
  | ip p te where "reaches_read e (ttl self)" and "recvfrom e (ttl self) = Recv_ok ip p te"
  unfolding reaches_read_def
  by (cases "bind_error e (ttl self)"; cases "setsockopt_ttl_error e (ttl self)";
      cases "send_error e (ttl self)"; cases "recvfrom e (ttl self)") auto

lemma iteration_keeps:
  "dst (obj (iteration e d self k)) = dst self"
  "hops (obj (iteration e d self k)) = hops self"
  "port (obj (iteration e d self k)) = port self"
  "geoip_reader (obj (iteration e d self k)) = geoip_reader self"
  "geoip_db_path (obj (iteration e d self k)) = geoip_db_path self"
  by (cases e self rule: iteration_cases;
      simp add: iteration_forms next_ttl_def Let_def)+

lemma iteration_ttl:
  "ttl (obj (iteration e d self k)) =
     (if status (iteration e d self k) = Continue \<or> status (iteration e d self k) = Break_limit
      then ttl self + 1 else ttl self)"
  by (cases e self rule: iteration_cases)
    (simp_all add: iteration_forms next_ttl_def Let_def)

lemma hop_ttls_append: "hop_ttls (xs @ ys) = hop_ttls xs @ hop_ttls ys"
  by (induction xs rule: hop_ttls.induct) simp_all

lemma hop_lines_append: "hop_lines (xs @ ys) = hop_lines xs @ hop_lines ys"
  by (induction xs rule: hop_lines.induct) simp_all

lemma sendto_targets_append: "sendto_targets (xs @ ys) = sendto_targets xs @ sendto_targets ys"
  by (induction xs rule: sendto_targets.induct) simp_all

lemma probe_ttls_append: "probe_ttls (xs @ ys) = probe_ttls xs @ probe_ttls ys"
  by (induction xs rule: probe_ttls.induct) simp_all

lemma bind_ports_append: "bind_ports (xs @ ys) = bind_ports xs @ bind_ports ys"
  by (induction xs rule: bind_ports.induct) simp_all

lemma created_append: "created_socks (xs @ ys) = created_socks xs @ created_socks ys"
  by (induction xs rule: created_socks.induct) simp_all

lemma used_append: "used_socks (xs @ ys) = used_socks xs @ used_socks ys"
  by (induction xs rule: used_socks.induct) simp_all

lemma closed_append: "closed_socks (xs @ ys) = closed_socks xs @ closed_socks ys"
  by (induction xs rule: closed_socks.induct) simp_all

lemmas reader_append =
  hop_ttls_append hop_lines_append sendto_targets_append probe_ttls_append bind_ports_append
  created_append used_append closed_append

lemma probe_calls_read:
  "hop_ttls (probe_calls self k a) = []"
  "hop_lines (probe_calls self k a) = []"
  "sendto_targets (probe_calls self k a) = [([], dst self, port self)]"
  "probe_ttls (probe_calls self k a) = [ttl self]"
  "bind_ports (probe_calls self k a) = [port self]"
  "created_socks (probe_calls self k a) = [nsock k, Suc (nsock k)]"
  "used_socks (probe_calls self k a) = [Suc (nsock k), nsock k]"
  "closed_socks (probe_calls self k a) = [nsock k, Suc (nsock k)]"
  by (simp_all add: probe_calls_def)

lemma failed_calls_read:
  "hop_ttls (failed_calls self k err) = []"
  "hop_lines (failed_calls self k err) = []"
  "sendto_targets (failed_calls self k err) = []"
  "probe_ttls (failed_calls self k err) = []"
  "bind_ports (failed_calls self k err) = [port self]"
  "created_socks (failed_calls self k err) = [nsock k]"
  "used_socks (failed_calls self k err) = []"
  "closed_socks (failed_calls self k err) = []"
  by (simp_all add: failed_calls_def)

lemma no_sender_calls_read:
  "hop_ttls (no_sender_calls self k err) = []"
  "hop_lines (no_sender_calls self k err) = []"
  "sendto_targets (no_sender_calls self k err) = []"
  "probe_ttls (no_sender_calls self k err) = []"
  "bind_ports (no_sender_calls self k err) = [port self]"
  "created_socks (no_sender_calls self k err) = [nsock k, Suc (nsock k)]"
  "used_socks (no_sender_calls self k err) = []"
  "closed_socks (no_sender_calls self k err) = []"
  by (simp_all add: no_sender_calls_def)

lemma no_send_calls_read:
  "hop_ttls (no_send_calls self k err) = []"
  "hop_lines (no_send_calls self k err) = []"
  "sendto_targets (no_send_calls self k err) = [([], dst self, port self)]"
  "probe_ttls (no_send_calls self k err) = [ttl self]"
  "bind_ports (no_send_calls self k err) = [port self]"
  "created_socks (no_send_calls self k err) = [nsock k, Suc (nsock k)]"
  "used_socks (no_send_calls self k err) = [Suc (nsock k)]"
  "closed_socks (no_send_calls self k err) = []"
  by (simp_all add: no_send_calls_def)

lemmas calls_read =
  probe_calls_read failed_calls_read no_sender_calls_read no_send_calls_read

lemma reaches_read_cases:
  "bind_error e t = Some err \<Longrightarrow> \<not> reaches_read e t"
  "setsockopt_ttl_error e t = Some err \<Longrightarrow> \<not> reaches_read e t"
  "send_error e t = Some err \<Longrightarrow> \<not> reaches_read e t"
  by (simp_all add: reaches_read_def)

lemma hop_ttls_iteration:
  "hop_ttls (events (iteration e d self k)) =
     (if reaches_read e (ttl self) then [ttl self] else [])"
  by (cases e self rule: iteration_cases)
    (simp_all add: iteration_forms next_ttl_def Let_def
      hop_ttls_append calls_read reaches_read_cases)

subsection \<open>Facts about the loop\<close>

lemma loop_stop:
  "status (iteration e d self k) \<noteq> Continue \<Longrightarrow> loop e d self k = iteration e d self k"
  by (subst loop.simps) (simp add: Let_def)

lemma loop_continue:
  "status (iteration e d self k) = Continue \<Longrightarrow>
   loop e d self k =
     (loop e d (obj (iteration e d self k)) (sockets (iteration e d self k)))
       \<lparr>events := events (iteration e d self k)
          @ events (loop e d (obj (iteration e d self k)) (sockets (iteration e d self k)))\<rparr>"
  by (subst loop.simps) (simp add: Let_def)

lemma loop_status: "status (loop e d self k) \<noteq> Continue"
proof (induction e d self k rule: loop.induct)
  case (1 e d self k)
  show ?case
  proof (cases "status (iteration e d self k) = Continue")
    case True
    with 1 show ?thesis by (simp add: loop_continue)
  next
    case False
    then show ?thesis by (simp add: loop_stop)
  qed
qed

lemma loop_keeps:
  "dst (obj (loop e d self k)) = dst self \<and> hops (obj (loop e d self k)) = hops self
   \<and> port (obj (loop e d self k)) = port self
   \<and> geoip_reader (obj (loop e d self k)) = geoip_reader self
   \<and> geoip_db_path (obj (loop e d self k)) = geoip_db_path self"
proof (induction e d self k rule: loop.induct)
  case (1 e d self k)
  show ?case
  proof (cases "status (iteration e d self k) = Continue")
    case True
    with 1 show ?thesis by (simp add: loop_continue iteration_keeps)
  next
    case False
    then show ?thesis by (simp add: loop_stop iteration_keeps)
  qed
qed

lemma loop_ttl_mono: "ttl self \<le> ttl (obj (loop e d self k))"
proof (induction e d self k rule: loop.induct)
  case (1 e d self k)
  show ?case
  proof (cases "status (iteration e d self k) = Continue")
    case True
    with 1 have "ttl (obj (iteration e d self k)) \<le> ttl (obj (loop e d self k))"
      by (simp add: loop_continue)
    with True show ?thesis by (simp add: iteration_ttl)
  next
    case False
    then show ?thesis by (simp add: loop_stop iteration_ttl)
  qed
qed

text \<open>The hop lines of a run of the loop carry the TTLs from the first one on, without a
  gap: up to the TTL the object ends with when the destination answered, and up to the one
  before otherwise.\<close>

lemma loop_hop_ttls:
  "hop_ttls (events (loop e d self k)) = [ttl self..last_hop (loop e d self k)]"
proof (induction e d self k rule: loop.induct)
  case (1 e d self k)
  let ?it = "iteration e d self k"
  show ?case
  proof (cases "status ?it = Continue")
    case True
    let ?r = "loop e d (obj ?it) (sockets ?it)"
    have ok: "reaches_read e (ttl self)"
      using True by (cases e self rule: iteration_cases) (simp_all add: iteration_forms)
    have incr: "ttl (obj ?it) = ttl self + 1"
      using True by (simp add: iteration_ttl)
    have "ttl self + 1 \<le> ttl (obj ?r)"
      using loop_ttl_mono [of "obj ?it" e d "sockets ?it"] incr by simp
    then have le: "ttl self \<le> last_hop ?r"
      by (simp add: last_hop_def)
    have "hop_ttls (events (loop e d self k)) = ttl self # [ttl self + 1..last_hop ?r]"
      using True 1 incr ok by (simp add: loop_continue hop_ttls_append hop_ttls_iteration)
    also have "\<dots> = [ttl self..last_hop ?r]"
      using le by (simp add: upto_rec1)
    also have "last_hop ?r = last_hop (loop e d self k)"
      using True by (simp add: loop_continue last_hop_def)
    finally show ?thesis .
  next
    case False
    then show ?thesis
      by (cases e self rule: iteration_cases)
        (auto simp: loop_stop last_hop_def hop_ttls_append calls_read
          iteration_forms next_ttl_def Let_def
          split: if_splits)
  qed
qed

lemma iteration_reaches_read:
  "reaches_read e (ttl self) \<longleftrightarrow> (\<forall>x. status (iteration e d self k) \<noteq> Raised x)"
  by (cases e self rule: iteration_cases)
    (simp_all add: iteration_forms next_ttl_def Let_def reaches_read_cases)

text \<open>The rules that unroll a run on a given session.\<close>

lemmas unroll =
  run_def loop_continue loop_stop iteration_bind_failed iteration_no_sender iteration_no_send
  iteration_read next_ttl_def Let_def reaches_read_def
  setsockopt_ttl_error_def probe_calls_def failed_calls_def no_sender_calls_def
  no_send_calls_def after_probe_def after_failed_def after_aborted_def get_geoip_def
  truthy_def str_opt_def

subsection \<open>Reaching the destination\<close>

lemma probe_calls_split:
  "probe_calls self k a =
     setup_calls self k @ [Recvfrom (nsock k) 1024 a, Close (nsock k), Close (Suc (nsock k))]"
  by (simp add: probe_calls_def setup_calls_def)

lemma recv_in_iteration:
  assumes "Recvfrom s n (Some (d, p)) \<in> set (events (iteration e d self k))"
  shows "status (iteration e d self k) = Break_destination
    \<and> (\<exists>pre ms loc. events (iteration e d self k) =
          pre @ [Recvfrom s n (Some (d, p)), Close s, Close (Suc s),
                 Print_reply (ttl (obj (iteration e d self k))) d ms loc])"
proof (cases e self rule: iteration_cases)
  case (failed err)
  with assms show ?thesis
    by (simp add: iteration_bind_failed failed_calls_def)
next
  case (no_sender err)
  with assms show ?thesis
    by (simp add: iteration_no_sender no_sender_calls_def)
next
  case (no_send err)
  with assms show ?thesis
    by (simp add: iteration_no_send no_send_calls_def)
next
  case no_reply
  with assms show ?thesis
    by (simp add: iteration_no_reply next_ttl_def probe_calls_def)
next
  case (reply ip p' te)
  with assms have eq: "ip = d" "p' = p" "s = nsock k" "n = 1024"
    by (auto simp: iteration_reply next_ttl_def probe_calls_def Let_def split: if_splits)
  let ?ms = "py_round (float_mul (float_sub te (clock e (ttl self))) 1000) 2"
  have st: "status (iteration e d self k) = Break_destination"
    and tt: "ttl (obj (iteration e d self k)) = ttl self"
    using reply eq by (simp_all add: iteration_reply Let_def)
  have "events (iteration e d self k) =
      setup_calls self k @ [Recvfrom s n (Some (d, p)), Close s, Close (Suc s),
        Print_reply (ttl self) d ?ms (get_geoip self d)]"
    using reply eq by (simp add: iteration_reply Let_def probe_calls_split)
  with st tt show ?thesis
    by auto
qed

lemma recv_in_loop:
  assumes "Recvfrom s n (Some (d, p)) \<in> set (events (loop e d self k))"
  shows "status (loop e d self k) = Break_destination
    \<and> (\<exists>pre ms loc. events (loop e d self k) =
          pre @ [Recvfrom s n (Some (d, p)), Close s, Close (Suc s),
                 Print_reply (ttl (obj (loop e d self k))) d ms loc])"
  using assms
proof (induction e d self k rule: loop.induct)
  case (1 e d self k)
  let ?it = "iteration e d self k"
  show ?case
  proof (cases "status ?it = Continue")
    case False
    then have "loop e d self k = ?it"
      by (rule loop_stop)
    with "1.prems" show ?thesis
      using recv_in_iteration [of s n d p e self k] by simp
  next
    case True
    let ?r = "loop e d (obj ?it) (sockets ?it)"
    have unfold: "loop e d self k = ?r\<lparr>events := events ?it @ events ?r\<rparr>"
      using True by (rule loop_continue)
    have "Recvfrom s n (Some (d, p)) \<notin> set (events ?it)"
      using True recv_in_iteration [of s n d p e self k] by auto
    with "1.prems" have "Recvfrom s n (Some (d, p)) \<in> set (events ?r)"
      unfolding unfold by simp
    with "1.IH" [OF refl True]
    obtain pre ms loc where st: "status ?r = Break_destination"
      and ev: "events ?r = pre @ [Recvfrom s n (Some (d, p)), Close s, Close (Suc s),
                 Print_reply (ttl (obj ?r)) d ms loc]"
      by blast
    have "events (?r\<lparr>events := events ?it @ events ?r\<rparr>) = (events ?it @ pre)
        @ [Recvfrom s n (Some (d, p)), Close s, Close (Suc s),
           Print_reply (ttl (obj (?r\<lparr>events := events ?it @ events ?r\<rparr>))) d ms loc]"
      unfolding ev by simp
    moreover have "status (?r\<lparr>events := events ?it @ events ?r\<rparr>) = Break_destination"
      using st by simp
    ultimately show ?thesis
      unfolding unfold by blast
  qed
qed

lemma ex_tracer_fields:
  "dst ex_tracer = ''example.test''" "hops ex_tracer = 3" "ttl ex_tracer = 1"
  "port ex_tracer = 33434"
  by (simp_all add: ex_tracer_def)

lemma ex_resolves: "gethostbyname ex_env (dst ex_tracer) = Inr ''93.184.216.34''"
  by (simp add: ex_env_def ex_tracer_def)

lemma ex_run_events:
  "events (run ex_env ex_tracer os0) =
     [Print_banner ''example.test'' ''93.184.216.34'' 3,
      Socket 0 SOCK_RAW IPPROTO_ICMP, Setsockopt_RCVTIMEO 0 5 0, Bind 0 [] 33434 None,
      Socket 1 SOCK_DGRAM IPPROTO_UDP, Setsockopt_TTL 1 1 None,
      Sendto 1 [] ''example.test'' 33434 None, Recvfrom 0 1024 None, Close 0, Close 1,
      Print_noreply 1,
      Socket 2 SOCK_RAW IPPROTO_ICMP, Setsockopt_RCVTIMEO 2 5 0, Bind 2 [] 33434 None,
      Socket 3 SOCK_DGRAM IPPROTO_UDP, Setsockopt_TTL 3 2 None,
      Sendto 3 [] ''example.test'' 33434 None,
      Recvfrom 2 1024 (Some (''93.184.216.34'', 0)), Close 2, Close 3,
      Print_reply 2 ''93.184.216.34''
        (py_round (float_mul (float_sub (100 + 1234 / 100000) 100) 1000) 2)
        ''Testland (Lat: 0.0, Lon: 0.0)'']"
  by (simp add: unroll ex_env_def ex_tracer_def os0_def ex_reader_def)

lemma ex_run_status: "status (run ex_env ex_tracer os0) = Break_destination"
  by (simp add: unroll ex_env_def ex_tracer_def os0_def ex_reader_def)

lemma ex_run_ttl: "ttl (obj (run ex_env ex_tracer os0)) = 2"
  by (simp add: unroll ex_env_def ex_tracer_def os0_def ex_reader_def)

lemma run_resolved:
  assumes "gethostbyname e (dst self) = Inr dst_ip"
  shows "events (run e self k) = Print_banner (dst self) dst_ip (hops self) # events (loop e dst_ip self k)"
    and "status (run e self k) = status (loop e dst_ip self k)"
    and "obj (run e self k) = obj (loop e dst_ip self k)"
    and "sockets (run e self k) = sockets (loop e dst_ip self k)"
  using assms by (simp_all add: run_def Let_def)

text \<open>
  C2. When the address captured at a hop equals the resolved destination address, that
  hop's reply line is printed after the read and the two closes, nothing follows it, the
  run leaves the loop by the destination \<^verbatim>\<open>break\<close>, and the hop lines printed are those
  of the TTLs up to this hop: none for a larger TTL.
\<close>

theorem destination_reply_ends_run:
  assumes "gethostbyname e (dst self) = Inr dst_ip"
    and "Recvfrom s n (Some (dst_ip, p)) \<in> set (events (run e self k))"
  shows "status (run e self k) = Break_destination
    \<and> (\<exists>pre ms loc. events (run e self k) =
          pre @ [Recvfrom s n (Some (dst_ip, p)), Close s, Close (Suc s),
                 Print_reply (ttl (obj (run e self k))) dst_ip ms loc])
    \<and> hop_ttls (events (run e self k)) = [ttl self..ttl (obj (run e self k))]"
proof -
  let ?r = "loop e dst_ip self k"
  from assms have "Recvfrom s n (Some (dst_ip, p)) \<in> set (events ?r)"
    by (simp add: run_resolved)
  from recv_in_loop [OF this]
  obtain pre ms loc where st: "status ?r = Break_destination"
    and ev: "events ?r = pre @ [Recvfrom s n (Some (dst_ip, p)), Close s, Close (Suc s),
                 Print_reply (ttl (obj ?r)) dst_ip ms loc]"
    by blast
  have "events (run e self k) = (Print_banner (dst self) dst_ip (hops self) # pre)
      @ [Recvfrom s n (Some (dst_ip, p)), Close s, Close (Suc s),
         Print_reply (ttl (obj (run e self k))) dst_ip ms loc]"
    using assms(1) ev by (simp add: run_resolved)
  moreover have "hop_ttls (events (run e self k)) = [ttl self..ttl (obj (run e self k))]"
    using assms(1) st loop_hop_ttls [of e dst_ip self k]
    by (simp add: run_resolved last_hop_def)
  ultimately show ?thesis
    using assms(1) st by (simp only: run_resolved) blast
qed

theorem destination_reply_ends_run_witness:
  "gethostbyname ex_env (dst ex_tracer) = Inr ''93.184.216.34''
   \<and> Recvfrom 2 1024 (Some (''93.184.216.34'', 0)) \<in> set (events (run ex_env ex_tracer os0))
   \<and> status (run ex_env ex_tracer os0) = Break_destination
   \<and> hop_ttls (events (run ex_env ex_tracer os0)) = [1..2]"
proof -
  have h: "Recvfrom 2 1024 (Some (''93.184.216.34'', 0)) \<in> set (events (run ex_env ex_tracer os0))"
    by (simp add: ex_run_events)
  from destination_reply_ends_run [OF ex_resolves h] ex_resolves h
  show ?thesis
    by (simp add: ex_run_ttl ex_tracer_fields)
qed

subsection \<open>The order of the TTLs\<close>


lemma iteration_not_answered:
  assumes "reaches_read e (ttl self)" and "\<not> answered_by e d (ttl self)"
  shows "status (iteration e d self k) = (if hops self \<le> ttl self then Break_limit else Continue)"
    and "obj (iteration e d self k) = self\<lparr>ttl := ttl self + 1\<rparr>"
    and "sockets (iteration e d self k) = after_probe k"
    and "hop_ttls (events (iteration e d self k)) = [ttl self]"
    and "probe_ttls (events (iteration e d self k)) = [ttl self]"
  using assms
  by (cases e self rule: iteration_cases;
      simp add: answered_by_def iteration_reply iteration_no_reply next_ttl_def Let_def
        reader_append probe_calls_read reaches_read_cases)+

lemma iteration_unread:
  assumes "\<not> reaches_read e (ttl self)"
  shows "\<exists>x. status (iteration e d self k) = Raised x" and "obj (iteration e d self k) = self"
    and "hop_ttls (events (iteration e d self k)) = []"
  using assms
  by (cases e self rule: iteration_cases; simp add: iteration_forms calls_read)+

text \<open>The TTLs set on senders run from the first one on without a gap, as far as the hop
  lines or, when the last send failed, one further.\<close>

lemma loop_probe_ttls:
  "\<exists>m. probe_ttls (events (loop e d self k)) = [ttl self..m]
       \<and> (m = last_hop (loop e d self k) \<or> m = last_hop (loop e d self k) + 1)"
proof (induction e d self k rule: loop.induct)
  case (1 e d self k)
  let ?it = "iteration e d self k"
  show ?case
  proof (cases "status ?it = Continue")
    case True
    let ?r = "loop e d (obj ?it) (sockets ?it)"
    have ok: "reaches_read e (ttl self)"
      using True by (simp add: iteration_reaches_read [of e self d k])
    have incr: "ttl (obj ?it) = ttl self + 1"
      using True by (simp add: iteration_ttl)
    have first: "probe_ttls (events ?it) = [ttl self]"
      using ok by (cases e self rule: iteration_cases)
        (simp_all add: iteration_forms next_ttl_def Let_def reader_append calls_read
          reaches_read_cases)
    from "1.IH" [OF refl True] incr obtain m
      where m: "probe_ttls (events ?r) = [ttl self + 1..m]"
        and at: "m = last_hop ?r \<or> m = last_hop ?r + 1"
      by auto
    have "ttl self + 1 \<le> ttl (obj ?r)"
      using loop_ttl_mono [of "obj ?it" e d "sockets ?it"] incr by simp
    then have "ttl self \<le> last_hop ?r"
      by (simp add: last_hop_def)
    with at have le: "ttl self \<le> m"
      by auto
    have same: "last_hop (loop e d self k) = last_hop ?r"
      using True by (simp add: loop_continue last_hop_def)
    have "probe_ttls (events (loop e d self k)) = ttl self # [ttl self + 1..m]"
      using True first m by (simp add: loop_continue reader_append)
    also have "\<dots> = [ttl self..m]"
      using le by (simp add: upto_rec1)
    finally show ?thesis
      using at same by auto
  next
    case False
    then have stop: "loop e d self k = ?it"
      by (rule loop_stop)
    show ?thesis
      unfolding stop
    proof (cases e self rule: iteration_cases)
      case (failed err)
      then show "\<exists>m. probe_ttls (events ?it) = [ttl self..m]
          \<and> (m = last_hop ?it \<or> m = last_hop ?it + 1)"
        by (intro exI [of _ "ttl self - 1"])
          (simp add: iteration_bind_failed calls_read last_hop_def)
    next
      case (no_sender err)
      then show "\<exists>m. probe_ttls (events ?it) = [ttl self..m]
          \<and> (m = last_hop ?it \<or> m = last_hop ?it + 1)"
        by (intro exI [of _ "ttl self - 1"])
          (simp add: iteration_no_sender calls_read last_hop_def)
    next
      case (no_send err)
      then show "\<exists>m. probe_ttls (events ?it) = [ttl self..m]
          \<and> (m = last_hop ?it \<or> m = last_hop ?it + 1)"
        by (intro exI [of _ "ttl self"])
          (simp add: iteration_no_send calls_read last_hop_def)
    next
      case no_reply
      with False show "\<exists>m. probe_ttls (events ?it) = [ttl self..m]
          \<and> (m = last_hop ?it \<or> m = last_hop ?it + 1)"
        by (intro exI [of _ "ttl self"])
          (simp add: iteration_no_reply next_ttl_def reader_append calls_read last_hop_def
            split: if_splits)
    next
      case (reply ip p te)
      with False show "\<exists>m. probe_ttls (events ?it) = [ttl self..m]
          \<and> (m = last_hop ?it \<or> m = last_hop ?it + 1)"
        by (intro exI [of _ "ttl self"])
          (simp add: iteration_reply next_ttl_def Let_def reader_append calls_read last_hop_def
            split: if_splits)
    qed
  qed
qed

lemma length_hop_lines: "length (hop_lines evs) = length (hop_ttls evs)"
  by (induction evs rule: hop_ttls.induct) simp_all

lemma loop_last_hop_le: "last_hop (loop e d self k) \<le> max (ttl self) (hops self)"
proof (induction e d self k rule: loop.induct)
  case (1 e d self k)
  let ?it = "iteration e d self k"
  show ?case
  proof (cases "status ?it = Continue")
    case True
    let ?r = "loop e d (obj ?it) (sockets ?it)"
    have "last_hop (loop e d self k) = last_hop ?r"
      using True by (simp add: loop_continue last_hop_def)
    moreover have "last_hop ?r \<le> max (ttl (obj ?it)) (hops (obj ?it))"
      using 1 True by simp
    moreover have "ttl (obj ?it) = ttl self + 1" "hops (obj ?it) = hops self" "ttl self < hops self"
      using iteration_Continue [OF True] by simp_all
    ultimately show ?thesis by simp
  next
    case False
    then have "last_hop (loop e d self k) \<le> ttl self"
      by (simp add: loop_stop last_hop_def iteration_ttl)
    then show ?thesis by simp
  qed
qed

lemma loop_last_hop_255: "last_hop (loop e d self k) \<le> max (ttl self - 1) 255"
proof (induction e d self k rule: loop.induct)
  case (1 e d self k)
  let ?it = "iteration e d self k"
  show ?case
  proof (cases "reaches_read e (ttl self)")
    case False
    from iteration_unread [OF False, of d k]
    have "status ?it \<noteq> Continue" "status ?it \<noteq> Break_destination" "ttl (obj ?it) = ttl self"
      by auto
    then show ?thesis
      by (simp add: loop_stop last_hop_def)
  next
    case True
    then have small: "ttl self \<le> 255"
      by (simp add: reaches_read_def setsockopt_ttl_error_def split: if_splits)
    show ?thesis
    proof (cases "status ?it = Continue")
      case c: True
      let ?r = "loop e d (obj ?it) (sockets ?it)"
      have "last_hop (loop e d self k) = last_hop ?r"
        using c by (simp add: loop_continue last_hop_def)
      moreover have "last_hop ?r \<le> max (ttl (obj ?it) - 1) 255"
        using 1 c by simp
      moreover have "ttl (obj ?it) = ttl self + 1"
        using iteration_Continue [OF c] by simp
      ultimately show ?thesis
        using small by simp
    next
      case False
      then have "last_hop (loop e d self k) \<le> ttl self"
        by (simp add: loop_stop last_hop_def iteration_ttl)
      with small show ?thesis
        by simp
    qed
  qed
qed

lemma loop_not_answered:
  assumes "ttl self \<le> hops self"
    and "\<forall>t\<in>{ttl self..hops self}. reaches_read e t \<and> \<not> answered_by e d t"
  shows "status (loop e d self k) = Break_limit \<and> ttl (obj (loop e d self k)) = hops self + 1"
  using assms
proof (induction e d self k rule: loop.induct)
  case (1 e d self k)
  let ?it = "iteration e d self k"
  have here: "reaches_read e (ttl self)" "\<not> answered_by e d (ttl self)"
    using "1.prems" by simp_all
  note it = iteration_not_answered [OF here, of k]
  show ?case
  proof (cases "ttl self = hops self")
    case True
    then have "status ?it \<noteq> Continue"
      using it(1) by simp
    then show ?thesis
      using it True by (simp add: loop_stop)
  next
    case False
    with "1.prems" have lt: "ttl self < hops self"
      by simp
    then have c: "status ?it = Continue"
      using it(1) by simp
    have "status (loop e d (obj ?it) (sockets ?it)) = Break_limit
        \<and> ttl (obj (loop e d (obj ?it) (sockets ?it))) = hops (obj ?it) + 1"
    proof (rule "1.IH" [OF refl c])
      show "ttl (obj ?it) \<le> hops (obj ?it)"
        using lt it(2) by simp
      show "\<forall>t\<in>{ttl (obj ?it)..hops (obj ?it)}. reaches_read e t \<and> \<not> answered_by e d t"
        using "1.prems"(2) it(2) by simp
    qed
    then show ?thesis
      using c it(2) by (simp add: loop_continue)
  qed
qed

text \<open>A loop whose passes go unanswered up to a TTL at which the sender cannot be given
  its TTL ends there with that error.\<close>

lemma loop_aborts_at:
  assumes "ttl self \<le> m" and "m \<le> hops self"
    and "\<forall>t\<in>{ttl self..<m}. reaches_read e t \<and> \<not> answered_by e d t"
    and "bind_error e m = None" and "setsockopt_ttl_error e m = Some err"
  shows "status (loop e d self k) = Raised (OSError err) \<and> ttl (obj (loop e d self k)) = m"
  using assms
proof (induction e d self k rule: loop.induct)
  case (1 e d self k)
  let ?it = "iteration e d self k"
  show ?case
  proof (cases "ttl self = m")
    case True
    then have "?it = \<lparr>events = no_sender_calls self k err, obj = self,
        sockets = after_aborted k, status = Raised (OSError err)\<rparr>"
      using "1.prems" by (intro iteration_no_sender) simp_all
    then show ?thesis
      using True by (simp add: loop_stop)
  next
    case False
    with "1.prems" have lt: "ttl self < m"
      by simp
    then have here: "reaches_read e (ttl self)" "\<not> answered_by e d (ttl self)"
      using "1.prems" by simp_all
    note it = iteration_not_answered [OF here, of k]
    have c: "status ?it = Continue"
      using it(1) lt "1.prems"(2) by simp
    have "status (loop e d (obj ?it) (sockets ?it)) = Raised (OSError err)
        \<and> ttl (obj (loop e d (obj ?it) (sockets ?it))) = m"
    proof (rule "1.IH" [OF refl c])
      show "ttl (obj ?it) \<le> m" "m \<le> hops (obj ?it)"
        using lt it(2) "1.prems"(2) by simp_all
      show "\<forall>t\<in>{ttl (obj ?it)..<m}. reaches_read e t \<and> \<not> answered_by e d t"
        using "1.prems"(3) it(2) by simp
      show "bind_error e m = None" "setsockopt_ttl_error e m = Some err"
        using "1.prems" by simp_all
    qed
    then show ?thesis
      using c by (simp add: loop_continue)
  qed
qed

text \<open>When no read ever returns an address, every hop line is a no-reply line.\<close>

lemma loop_no_reply_lines:
  assumes "\<forall>t. recvfrom e t = Recv_error"
  shows "hop_lines (events (loop e d self k))
    = map Print_noreply (hop_ttls (events (loop e d self k)))"
  using assms
proof (induction e d self k rule: loop.induct)
  case (1 e d self k)
  let ?it = "iteration e d self k"
  have none: "recvfrom e (ttl self) = Recv_error"
    using "1.prems" by simp
  have it: "hop_lines (events ?it) = map Print_noreply (hop_ttls (events ?it))"
    using none
    by (cases e self rule: iteration_cases)
      (simp_all add: iteration_bind_failed iteration_no_sender iteration_no_send
        iteration_no_reply next_ttl_def reader_append calls_read)
  show ?case
  proof (cases "status ?it = Continue")
    case True
    with "1.IH" [OF refl True "1.prems"] it show ?thesis
      by (simp add: loop_continue reader_append)
  next
    case False
    with it show ?thesis
      by (simp add: loop_stop)
  qed
qed

text \<open>
  C3, as the source has it. With a maximum hop count of at least 1, the hop lines of a run
  carry the TTLs 1, 2, ... in increasing order without a gap, never beyond the maximum and
  never beyond 255, and the senders are given the same TTLs (one more when the last send
  failed). When the maximum is at most 255, no bind, no setting of the TTL and no send fails
  up to the maximum, and no captured address equals the resolved destination address, there
  are exactly as many hop lines as the maximum hop count, the last one for that TTL, and the
  run leaves the loop by the hop limit.
\<close>

theorem ttls_visited_in_order:
  assumes "1 \<le> hops self" and "ttl self = 1" and "gethostbyname e (dst self) = Inr dst_ip"
  shows "(\<exists>n m. n \<le> hops self \<and> n \<le> 255 \<and> hop_ttls (events (run e self k)) = [1..n]
            \<and> probe_ttls (events (run e self k)) = [1..m] \<and> (m = n \<or> m = n + 1))
    \<and> (hops self \<le> 255
         \<and> (\<forall>t\<in>{1..hops self}.
               bind_error e t = None \<and> ttl_error e t = None \<and> send_error e t = None
               \<and> \<not> answered_by e dst_ip t) \<longrightarrow>
          hop_ttls (events (run e self k)) = [1..hops self]
          \<and> length (hop_lines (events (run e self k))) = nat (hops self)
          \<and> status (run e self k) = Break_limit)"
proof -
  let ?r = "loop e dst_ip self k"
  have ev: "hop_ttls (events (run e self k)) = [1..last_hop ?r]"
    using assms loop_hop_ttls [of e dst_ip self k] by (simp add: run_resolved)
  from loop_probe_ttls [of e dst_ip self k] assms obtain m
    where pr: "probe_ttls (events (run e self k)) = [1..m]"
      and at: "m = last_hop ?r \<or> m = last_hop ?r + 1"
    by (auto simp: run_resolved)
  have "last_hop ?r \<le> hops self" "last_hop ?r \<le> 255"
    using loop_last_hop_le [of e dst_ip self k] loop_last_hop_255 [of e dst_ip self k] assms
    by simp_all
  with ev pr at have first: "\<exists>n m. n \<le> hops self \<and> n \<le> 255
      \<and> hop_ttls (events (run e self k)) = [1..n]
      \<and> probe_ttls (events (run e self k)) = [1..m] \<and> (m = n \<or> m = n + 1)"
    by blast
  have second: "hop_ttls (events (run e self k)) = [1..hops self]
          \<and> length (hop_lines (events (run e self k))) = nat (hops self)
          \<and> status (run e self k) = Break_limit"
    if small: "hops self \<le> 255"
      and quiet: "\<forall>t\<in>{1..hops self}.
        bind_error e t = None \<and> ttl_error e t = None \<and> send_error e t = None
        \<and> \<not> answered_by e dst_ip t"
  proof -
    have "\<forall>t\<in>{ttl self..hops self}. reaches_read e t \<and> \<not> answered_by e dst_ip t"
      using small quiet assms(2) by (simp add: reaches_read_def setsockopt_ttl_error_def)
    then have "status ?r = Break_limit \<and> ttl (obj ?r) = hops self + 1"
      using assms by (intro loop_not_answered) simp_all
    then have "last_hop ?r = hops self" "status (run e self k) = Break_limit"
      using assms(3) by (simp_all add: last_hop_def run_resolved)
    then show ?thesis
      using ev assms(1) by (simp add: length_hop_lines)
  qed
  from first second show ?thesis
    by blast
qed

lemma quiet_env_fields:
  "bind_error quiet_env t = None" "ttl_error quiet_env t = None" "send_error quiet_env t = None"
  "recvfrom quiet_env t = Recv_error" "\<not> answered_by quiet_env d t"
  "gethostbyname quiet_env ''example.test'' = Inr ''93.184.216.34''"
  by (simp_all add: quiet_env_def ex_env_def answered_by_def)

lemma quiet_reaches_read: "reaches_read quiet_env t \<longleftrightarrow> t \<le> 255"
  by (simp add: reaches_read_def setsockopt_ttl_error_def quiet_env_fields)

lemma quiet_tracer_fields:
  "dst quiet_tracer = ''example.test''" "hops quiet_tracer = 2" "ttl quiet_tracer = 1"
  "port quiet_tracer = 33434"
  by (simp_all add: quiet_tracer_def ex_tracer_def)

lemma upto_1_2: "[1..2] = [1, 2::int]"
  by (simp add: upto.simps)

theorem ttls_visited_in_order_witness:
  "1 \<le> hops quiet_tracer \<and> ttl quiet_tracer = 1
   \<and> gethostbyname quiet_env (dst quiet_tracer) = Inr ''93.184.216.34''
   \<and> hops quiet_tracer \<le> 255
   \<and> bind_error quiet_env 1 = None \<and> bind_error quiet_env 2 = None
   \<and> ttl_error quiet_env 1 = None \<and> ttl_error quiet_env 2 = None
   \<and> send_error quiet_env 1 = None \<and> send_error quiet_env 2 = None
   \<and> \<not> answered_by quiet_env ''93.184.216.34'' 1 \<and> \<not> answered_by quiet_env ''93.184.216.34'' 2
   \<and> hop_ttls (events (run quiet_env quiet_tracer os0)) = [1, 2]
   \<and> length (hop_lines (events (run quiet_env quiet_tracer os0))) = 2
   \<and> status (run quiet_env quiet_tracer os0) = Break_limit"
proof -
  have h1: "1 \<le> hops quiet_tracer" and h2: "ttl quiet_tracer = 1"
    and h3: "gethostbyname quiet_env (dst quiet_tracer) = Inr ''93.184.216.34''"
    by (simp_all add: quiet_tracer_fields quiet_env_fields)
  have h4: "hops quiet_tracer \<le> 255
      \<and> (\<forall>t\<in>{1..hops quiet_tracer}.
            bind_error quiet_env t = None \<and> ttl_error quiet_env t = None
            \<and> send_error quiet_env t = None \<and> \<not> answered_by quiet_env ''93.184.216.34'' t)"
    by (simp add: quiet_env_fields quiet_tracer_fields)
  from ttls_visited_in_order [OF h1 h2 h3, of os0] h4
  have "hop_ttls (events (run quiet_env quiet_tracer os0)) = [1..hops quiet_tracer]
      \<and> length (hop_lines (events (run quiet_env quiet_tracer os0))) = nat (hops quiet_tracer)
      \<and> status (run quiet_env quiet_tracer os0) = Break_limit"
    by blast
  then show ?thesis
    using h1 h2 h3 by (simp add: quiet_tracer_fields quiet_env_fields upto_1_2)
qed

text \<open>With a hop limit of 300 and no answer at all, the run prints the 255 no-reply lines of
  the TTLs 1 to 255 and ends with the error of setting the TTL 256. With a hop limit of 1
  and a send that the system refuses, it prints no hop line.\<close>

lemma long_tracer_fields:
  "dst long_tracer = ''example.test''" "hops long_tracer = 300" "ttl long_tracer = 1"
  by (simp_all add: long_tracer_def ex_tracer_def)

lemma bcast_fields:
  "dst bcast_tracer = ''255.255.255.255''" "hops bcast_tracer = 1" "ttl bcast_tracer = 1"
  "port bcast_tracer = 33434"
  "gethostbyname bcast_env h = Inr h" "bind_error bcast_env t = None"
  "ttl_error bcast_env t = None" "send_error bcast_env t = Some eacces"
  by (simp_all add: bcast_tracer_def bcast_env_def quiet_env_def ex_env_def ex_tracer_def)

lemma bcast_run:
  "run bcast_env bcast_tracer os0 =
     \<lparr>events =
        [Print_banner ''255.255.255.255'' ''255.255.255.255'' 1,
         Socket 0 SOCK_RAW IPPROTO_ICMP, Setsockopt_RCVTIMEO 0 5 0, Bind 0 [] 33434 None,
         Socket 1 SOCK_DGRAM IPPROTO_UDP, Setsockopt_TTL 1 1 None,
         Sendto 1 [] ''255.255.255.255'' 33434 (Some eacces)],
      obj = bcast_tracer, sockets = \<lparr>nsock = 2, open_socks = {0, 1}\<rparr>,
      status = Raised (OSError eacces)\<rparr>"
proof -
  have "iteration bcast_env ''255.255.255.255'' bcast_tracer os0 =
      \<lparr>events = no_send_calls bcast_tracer os0 eacces, obj = bcast_tracer,
       sockets = after_aborted os0, status = Raised (OSError eacces)\<rparr>"
    by (rule iteration_no_send)
      (simp_all add: bcast_fields setsockopt_ttl_error_def)
  then show ?thesis
    by (auto simp: run_def bcast_fields loop_stop no_send_calls_def after_aborted_def os0_def)
qed

theorem hop_limit_reached_counterexample:
  "hops long_tracer = 300
   \<and> hop_lines (events (run quiet_env long_tracer os0)) = map Print_noreply [1..255]
   \<and> status (run quiet_env long_tracer os0) = Raised (OSError einval)
   \<and> hops bcast_tracer = 1
   \<and> hop_lines (events (run bcast_env bcast_tracer os0)) = []
   \<and> status (run bcast_env bcast_tracer os0) = Raised (OSError eacces)"
proof -
  let ?d = "''93.184.216.34''"
  let ?r = "loop quiet_env ?d long_tracer os0"
  have res: "gethostbyname quiet_env (dst long_tracer) = Inr ?d"
    by (simp add: long_tracer_fields quiet_env_fields)
  have "status ?r = Raised (OSError einval) \<and> ttl (obj ?r) = 256"
    by (rule loop_aborts_at)
      (simp_all add: long_tracer_fields quiet_reaches_read quiet_env_fields
        setsockopt_ttl_error_def)
  then have st: "status ?r = Raised (OSError einval)" and last: "last_hop ?r = 255"
    by (simp_all add: last_hop_def)
  have "hop_ttls (events ?r) = [1..255]"
    using loop_hop_ttls [of quiet_env ?d long_tracer os0]
    by (simp only: last long_tracer_fields)
  moreover have "hop_lines (events ?r) = map Print_noreply (hop_ttls (events ?r))"
    by (rule loop_no_reply_lines) (simp add: quiet_env_fields)
  ultimately have "hop_lines (events ?r) = map Print_noreply [1..255]"
    by (simp only:)
  then have "hop_lines (events (run quiet_env long_tracer os0)) = map Print_noreply [1..255]"
    by (simp only: run_resolved [OF res] hop_lines.simps)
  moreover have "status (run quiet_env long_tracer os0) = Raised (OSError einval)"
    using st by (simp only: run_resolved [OF res])
  moreover have "hop_lines (events (run bcast_env bcast_tracer os0)) = []"
    "status (run bcast_env bcast_tracer os0) = Raised (OSError eacces)"
    by (simp_all add: bcast_run)
  ultimately show ?thesis
    by (simp only: long_tracer_fields bcast_fields simp_thms)
qed



text \<open>
  C4. When the pass reaches its read (the receiver binds, the sender takes its TTL and the
  probe is sent) and the read times out or fails, the read returns no address, the pass
  raises nothing, its last call is the print of the no-reply line with the TTL alone, the
  TTL is incremented, and unless the hop limit is exhausted the loop goes on with the pass
  for the next TTL.
\<close>

theorem no_reply_is_not_an_error:
  assumes "reaches_read e (ttl self)" and "recvfrom e (ttl self) = Recv_error"
  shows "events (iteration e d self k) = probe_calls self k None @ [Print_noreply (ttl self)]
    \<and> hop_lines (events (iteration e d self k)) = [Print_noreply (ttl self)]
    \<and> status (iteration e d self k) = (if hops self \<le> ttl self then Break_limit else Continue)
    \<and> obj (iteration e d self k) = self\<lparr>ttl := ttl self + 1\<rparr>
    \<and> (ttl self < hops self \<longrightarrow>
          events (loop e d self k) =
            events (iteration e d self k)
              @ events (loop e d (self\<lparr>ttl := ttl self + 1\<rparr>) (after_probe k))
          \<and> status (loop e d self k) =
              status (loop e d (self\<lparr>ttl := ttl self + 1\<rparr>) (after_probe k)))"
proof -
  let ?it = "iteration e d self k"
  have it: "?it = next_ttl (probe_calls self k None @ [Print_noreply (ttl self)]) self
      (after_probe k)"
    using assms by (rule iteration_no_reply)
  have parts: "events ?it = probe_calls self k None @ [Print_noreply (ttl self)]"
    "status ?it = (if hops self \<le> ttl self then Break_limit else Continue)"
    "obj ?it = self\<lparr>ttl := ttl self + 1\<rparr>" "sockets ?it = after_probe k"
    unfolding it by (simp_all add: next_ttl_def)
  have "hop_lines (events ?it) = [Print_noreply (ttl self)]"
    unfolding parts by (simp add: reader_append probe_calls_read)
  moreover have "events (loop e d self k) =
      events ?it @ events (loop e d (self\<lparr>ttl := ttl self + 1\<rparr>) (after_probe k))
    \<and> status (loop e d self k) =
        status (loop e d (self\<lparr>ttl := ttl self + 1\<rparr>) (after_probe k))"
    if "ttl self < hops self"
  proof -
    have "status ?it = Continue"
      using that parts(2) by simp
    from loop_continue [OF this] show ?thesis
      by (simp add: parts(3,4))
  qed
  ultimately show ?thesis
    using parts by blast
qed

theorem no_reply_is_not_an_error_witness:
  "reaches_read quiet_env (ttl quiet_tracer)
   \<and> recvfrom quiet_env (ttl quiet_tracer) = Recv_error
   \<and> ttl quiet_tracer < hops quiet_tracer
   \<and> hop_lines (events (iteration quiet_env ''93.184.216.34'' quiet_tracer os0))
       = [Print_noreply 1]
   \<and> status (iteration quiet_env ''93.184.216.34'' quiet_tracer os0) = Continue
   \<and> ttl (obj (iteration quiet_env ''93.184.216.34'' quiet_tracer os0)) = 2
   \<and> hop_ttls (events (loop quiet_env ''93.184.216.34'' quiet_tracer os0)) = [1, 2]"
proof -
  have h1: "reaches_read quiet_env (ttl quiet_tracer)"
    and h2: "recvfrom quiet_env (ttl quiet_tracer) = Recv_error"
    and h3: "ttl quiet_tracer < hops quiet_tracer"
    by (simp_all add: quiet_env_fields quiet_tracer_fields quiet_reaches_read)
  have "status (loop quiet_env ''93.184.216.34'' quiet_tracer os0) = Break_limit
      \<and> ttl (obj (loop quiet_env ''93.184.216.34'' quiet_tracer os0)) = hops quiet_tracer + 1"
    by (rule loop_not_answered)
      (simp_all add: quiet_env_fields quiet_tracer_fields quiet_reaches_read)
  then have ev: "hop_ttls (events (loop quiet_env ''93.184.216.34'' quiet_tracer os0)) = [1, 2]"
    using loop_hop_ttls [of quiet_env "''93.184.216.34''" quiet_tracer os0]
    by (simp add: last_hop_def quiet_tracer_fields upto_1_2)
  let ?it = "iteration quiet_env ''93.184.216.34'' quiet_tracer os0"
  from no_reply_is_not_an_error [OF h1 h2, of "''93.184.216.34''" os0]
  have "hop_lines (events ?it) = [Print_noreply (ttl quiet_tracer)]"
    and "status ?it = (if hops quiet_tracer \<le> ttl quiet_tracer then Break_limit else Continue)"
    and "obj ?it = quiet_tracer\<lparr>ttl := ttl quiet_tracer + 1\<rparr>"
    by blast+
  then show ?thesis
    using h1 h2 h3 ev by (simp add: quiet_tracer_fields)
qed

subsection \<open>A failed bind\<close>

lemma bind_failures_append: "bind_failures (xs @ ys) = bind_failures xs @ bind_failures ys"
  by (induction xs rule: bind_failures.induct) simp_all

lemma bind_failures_mem:
  "Bind s a p (Some err) \<in> set evs \<Longrightarrow> err \<in> set (bind_failures evs)"
  by (induction evs rule: bind_failures.induct) auto

lemma bind_failures_iteration:
  "bind_failures (events (iteration e d self k)) =
     (case bind_error e (ttl self) of None \<Rightarrow> [] | Some err \<Rightarrow> [err])"
  by (cases e self rule: iteration_cases)
    (simp_all add: iteration_forms next_ttl_def Let_def
      bind_failures_append probe_calls_def failed_calls_def no_sender_calls_def
      no_send_calls_def reaches_read_def)

lemma failed_bind_in_iteration:
  assumes "err \<in> set (bind_failures (events (iteration e d self k)))"
  shows "status (iteration e d self k) = Raised (IOError (msg_receiver @ err))"
    and "\<exists>pre s a p. events (iteration e d self k) = pre @ [Bind s a p (Some err)]"
    and "bind_failures (events (iteration e d self k)) = [err]"
proof -
  from assms have f: "bind_error e (ttl self) = Some err"
    by (auto simp: bind_failures_iteration split: option.splits)
  show "status (iteration e d self k) = Raised (IOError (msg_receiver @ err))"
    by (simp add: iteration_bind_failed [OF f])
  have "events (iteration e d self k) =
      [Socket (nsock k) SOCK_RAW IPPROTO_ICMP, Setsockopt_RCVTIMEO (nsock k) 5 0]
        @ [Bind (nsock k) [] (port self) (Some err)]"
    by (simp add: iteration_bind_failed [OF f] failed_calls_def)
  then show "\<exists>pre s a p. events (iteration e d self k) = pre @ [Bind s a p (Some err)]"
    by blast
  show "bind_failures (events (iteration e d self k)) = [err]"
    by (simp add: bind_failures_iteration f)
qed

lemma failed_bind_in_loop:
  assumes "err \<in> set (bind_failures (events (loop e d self k)))"
  shows "status (loop e d self k) = Raised (IOError (msg_receiver @ err))
    \<and> (\<exists>pre s a p. events (loop e d self k) = pre @ [Bind s a p (Some err)])
    \<and> bind_failures (events (loop e d self k)) = [err]"
  using assms
proof (induction e d self k rule: loop.induct)
  case (1 e d self k)
  let ?it = "iteration e d self k"
  show ?case
  proof (cases "status ?it = Continue")
    case False
    then have "loop e d self k = ?it"
      by (rule loop_stop)
    with "1.prems" failed_bind_in_iteration [of err e d self k] show ?thesis
      by simp
  next
    case True
    let ?r = "loop e d (obj ?it) (sockets ?it)"
    have unfold: "loop e d self k = ?r\<lparr>events := events ?it @ events ?r\<rparr>"
      using True by (rule loop_continue)
    have none: "bind_failures (events ?it) = []"
      using True by (cases "bind_error e (ttl self)")
        (simp_all add: bind_failures_iteration iteration_bind_failed)
    with "1.prems" have "err \<in> set (bind_failures (events ?r))"
      unfolding unfold by (simp add: bind_failures_append)
    with "1.IH" [OF refl True]
    obtain pre s a p where st: "status ?r = Raised (IOError (msg_receiver @ err))"
      and ev: "events ?r = pre @ [Bind s a p (Some err)]"
      and one: "bind_failures (events ?r) = [err]"
      by blast
    have "events (?r\<lparr>events := events ?it @ events ?r\<rparr>)
        = (events ?it @ pre) @ [Bind s a p (Some err)]"
      unfolding ev by simp
    moreover have "bind_failures (events (?r\<lparr>events := events ?it @ events ?r\<rparr>)) = [err]"
      using none one by (simp add: bind_failures_append)
    moreover have "status (?r\<lparr>events := events ?it @ events ?r\<rparr>)
        = Raised (IOError (msg_receiver @ err))"
      using st by simp
    ultimately show ?thesis
      unfolding unfold by blast
  qed
qed

text \<open>
  C6. When a bind of the receiver fails in a run, the run ends with the \<^verbatim>\<open>IOError\<close> built
  from that failure: the failed bind is the last call of the whole run, so no pass follows
  it, and it is the only failed bind of the run, so it was not tried again.
\<close>

theorem bind_failure_aborts_run:
  assumes "Bind s a p (Some err) \<in> set (events (run e self k))"
  shows "status (run e self k) = Raised (IOError (msg_receiver @ err))
    \<and> last (events (run e self k)) = Bind s a p (Some err)
    \<and> bind_failures (events (run e self k)) = [err]"
proof (cases "gethostbyname e (dst self)")
  case (Inl msg)
  with assms show ?thesis
    by (simp add: run_def)
next
  case (Inr dst_ip)
  note rr = run_resolved [OF Inr, of k]
  let ?r = "loop e dst_ip self k"
  from assms have mem: "Bind s a p (Some err) \<in> set (events ?r)"
    by (simp add: rr)
  then have "err \<in> set (bind_failures (events ?r))"
    by (rule bind_failures_mem)
  from failed_bind_in_loop [OF this]
  obtain pre s' a' p' where st: "status ?r = Raised (IOError (msg_receiver @ err))"
    and ev: "events ?r = pre @ [Bind s' a' p' (Some err)]"
    and one: "bind_failures (events ?r) = [err]"
    by blast
  have "bind_failures pre = []"
    using one unfolding ev by (simp add: bind_failures_append)
  then have "Bind s a p (Some err) \<notin> set pre"
    using bind_failures_mem [of s a p err pre] by auto
  with mem have "Bind s' a' p' (Some err) = Bind s a p (Some err)"
    unfolding ev by simp
  with ev have "last (events ?r) = Bind s a p (Some err)"
    by simp
  moreover have "events ?r \<noteq> []"
    using ev by simp
  ultimately show ?thesis
    using st one by (simp add: rr)
qed

lemma busy_run_events:
  "events (run busy_env ex_tracer os0) =
     [Print_banner ''example.test'' ''93.184.216.34'' 3,
      Socket 0 SOCK_RAW IPPROTO_ICMP, Setsockopt_RCVTIMEO 0 5 0, Bind 0 [] 33434 None,
      Socket 1 SOCK_DGRAM IPPROTO_UDP, Setsockopt_TTL 1 1 None,
      Sendto 1 [] ''example.test'' 33434 None, Recvfrom 0 1024 None, Close 0, Close 1,
      Print_noreply 1,
      Socket 2 SOCK_RAW IPPROTO_ICMP, Setsockopt_RCVTIMEO 2 5 0,
      Bind 2 [] 33434 (Some ''Address already in use'')]"
  by (simp add: unroll busy_env_def quiet_env_def ex_env_def ex_tracer_def os0_def)

theorem bind_failure_aborts_run_witness:
  "Bind 2 [] 33434 (Some ''Address already in use'') \<in> set (events (run busy_env ex_tracer os0))
   \<and> status (run busy_env ex_tracer os0)
       = Raised (IOError (msg_receiver @ ''Address already in use''))
   \<and> hop_ttls (events (run busy_env ex_tracer os0)) = [1]
   \<and> bind_failures (events (run busy_env ex_tracer os0)) = [''Address already in use'']"
proof -
  have h: "Bind 2 [] 33434 (Some ''Address already in use'')
      \<in> set (events (run busy_env ex_tracer os0))"
    by (simp add: busy_run_events)
  have t: "hop_ttls (events (run busy_env ex_tracer os0)) = [1]"
    by (simp add: busy_run_events)
  from bind_failure_aborts_run [OF h] h t show ?thesis
    by simp
qed

subsection \<open>The life of the sockets\<close>

lemma iteration_bound:
  assumes "reaches_read e (ttl self)"
  shows "events (iteration e d self k) =
      probe_calls self k (captured (recvfrom e (ttl self)))
        @ hop_lines (events (iteration e d self k))"
    and "sockets (iteration e d self k) = after_probe k"
    and "length (hop_lines (events (iteration e d self k))) = 1"
  using assms
  by (cases e self rule: iteration_cases;
      simp add: iteration_no_reply iteration_reply next_ttl_def Let_def captured_def
        reader_append probe_calls_read reaches_read_cases)+

lemma after_probe_ok:
  assumes "os_ok k"
  shows "open_socks (after_probe k) = open_socks k" and "os_ok (after_probe k)"
  using assms by (auto simp: os_ok_def after_probe_def less_Suc_eq)

lemma after_failed_ok: "os_ok k \<Longrightarrow> os_ok (after_failed k)"
  by (auto simp: os_ok_def after_failed_def less_Suc_eq)

lemma after_aborted_ok: "os_ok k \<Longrightarrow> os_ok (after_aborted k)"
  by (auto simp: os_ok_def after_aborted_def less_Suc_eq)

lemma iteration_sockets:
  "sockets (iteration e d self k) =
     (if reaches_read e (ttl self) then after_probe k
      else if bind_error e (ttl self) = None then after_aborted k else after_failed k)"
  by (cases e self rule: iteration_cases)
    (simp_all add: iteration_forms next_ttl_def Let_def reaches_read_cases)

lemma iteration_created:
  "created_socks (events (iteration e d self k)) = [nsock k..<nsock (sockets (iteration e d self k))]
   \<and> nsock k \<le> nsock (sockets (iteration e d self k))"
  by (cases e self rule: iteration_cases)
    (simp_all add: iteration_forms next_ttl_def Let_def reader_append calls_read
        after_probe_def after_failed_def after_aborted_def upt_rec)

lemma upt_join: "i \<le> j \<Longrightarrow> j \<le> m \<Longrightarrow> [i..<j] @ [j..<m] = [i..<m]"
  using upt_add_eq_append [of i j "m - j"] by simp

lemma loop_created:
  "created_socks (events (loop e d self k)) = [nsock k..<nsock (sockets (loop e d self k))]
   \<and> nsock k \<le> nsock (sockets (loop e d self k))"
proof (induction e d self k rule: loop.induct)
  case (1 e d self k)
  let ?it = "iteration e d self k"
  show ?case
  proof (cases "status ?it = Continue")
    case False
    then show ?thesis
      by (simp add: loop_stop iteration_created)
  next
    case True
    let ?r = "loop e d (obj ?it) (sockets ?it)"
    from "1.IH" [OF refl True]
    have ih: "created_socks (events ?r) = [nsock (sockets ?it)..<nsock (sockets ?r)]"
      and le: "nsock (sockets ?it) \<le> nsock (sockets ?r)"
      by simp_all
    have "created_socks (events ?it @ events ?r) = [nsock k..<nsock (sockets ?r)]"
      using ih le iteration_created [of e d self k]
      by (simp add: created_append upt_join)
    moreover have "nsock k \<le> nsock (sockets ?r)"
      using le iteration_created [of e d self k] by simp
    ultimately show ?thesis
      by (simp add: loop_continue [OF True])
  qed
qed

lemma loop_sockets:
  assumes "os_ok k"
  shows "os_ok (sockets (loop e d self k))
    \<and> ((\<forall>x. status (loop e d self k) \<noteq> Raised x) \<longrightarrow>
          open_socks (sockets (loop e d self k)) = open_socks k)"
  using assms
proof (induction e d self k rule: loop.induct)
  case (1 e d self k)
  let ?it = "iteration e d self k"
  have ok_it: "os_ok (sockets ?it)"
    using "1.prems"
    by (simp add: iteration_sockets after_probe_ok after_failed_ok after_aborted_ok)
  have same: "open_socks (sockets ?it) = open_socks k" if "\<forall>x. status ?it \<noteq> Raised x"
  proof -
    from that have "reaches_read e (ttl self)"
      by (simp add: iteration_reaches_read [of e self d k])
    then show ?thesis
      using "1.prems" by (simp add: iteration_sockets after_probe_ok)
  qed
  show ?case
  proof (cases "status ?it = Continue")
    case False
    then show ?thesis
      using ok_it same by (simp add: loop_stop)
  next
    case True
    then have "open_socks (sockets ?it) = open_socks k"
      using same by simp
    then show ?thesis
      using "1.IH" [OF refl True ok_it] by (simp add: loop_continue [OF True])
  qed
qed

text \<open>A pass that reaches its read creates two sockets that did not exist before, uses these
  two for the send and the read, and closes both after the read whatever the read gave (an
  address, a timeout or an error): the calls of the pass are the probe calls, ending with
  the two closes, followed only by the hop line, and the set of open sockets after the pass
  is the one before it. Over the whole loop every socket is created once, so no pass uses an
  endpoint of an earlier pass, and a loop that ends without an exception leaves no socket
  open.\<close>

lemma read_path_releases:
  assumes "os_ok k"
  shows "(reaches_read e (ttl self) \<longrightarrow>
      events (iteration e d self k) =
        probe_calls self k (captured (recvfrom e (ttl self)))
          @ hop_lines (events (iteration e d self k))
      \<and> created_socks (events (iteration e d self k)) = [nsock k, Suc (nsock k)]
      \<and> used_socks (events (iteration e d self k)) = [Suc (nsock k), nsock k]
      \<and> closed_socks (events (iteration e d self k)) = [nsock k, Suc (nsock k)]
      \<and> nsock k \<notin> open_socks k \<and> Suc (nsock k) \<notin> open_socks k
      \<and> open_socks (sockets (iteration e d self k)) = open_socks k)
    \<and> distinct (created_socks (events (loop e d self k)))
    \<and> ((\<forall>x. status (loop e d self k) \<noteq> Raised x) \<longrightarrow>
          open_socks (sockets (loop e d self k)) = open_socks k)"
proof -
  let ?it = "iteration e d self k"
  have pass: "events ?it =
        probe_calls self k (captured (recvfrom e (ttl self))) @ hop_lines (events ?it)
      \<and> created_socks (events ?it) = [nsock k, Suc (nsock k)]
      \<and> used_socks (events ?it) = [Suc (nsock k), nsock k]
      \<and> closed_socks (events ?it) = [nsock k, Suc (nsock k)]
      \<and> nsock k \<notin> open_socks k \<and> Suc (nsock k) \<notin> open_socks k
      \<and> open_socks (sockets ?it) = open_socks k"
    if ok: "reaches_read e (ttl self)"
  proof -
    note b = iteration_bound [OF ok, of d k]
    have fresh: "nsock k \<notin> open_socks k" "Suc (nsock k) \<notin> open_socks k"
      using assms by (auto simp: os_ok_def)
    have "created_socks (events ?it) = [nsock k, Suc (nsock k)]"
      "used_socks (events ?it) = [Suc (nsock k), nsock k]"
      "closed_socks (events ?it) = [nsock k, Suc (nsock k)]"
      by (cases e self rule: iteration_cases;
          use ok in \<open>simp add: iteration_no_reply iteration_reply next_ttl_def Let_def
            reader_append probe_calls_read reaches_read_cases\<close>)+
    then show ?thesis
      using b(1) fresh assms by (simp add: b(2) after_probe_ok)
  qed
  have "distinct (created_socks (events (loop e d self k)))"
    using loop_created [of e d self k] by simp
  with pass loop_sockets [OF assms, of e d self] show ?thesis
    by blast
qed

text \<open>A pass that binds its receiver but does not reach the read, because the sender cannot
  be given its TTL or the send fails, ends with that exception and closes nothing: the two
  sockets it created stay open.\<close>

lemma aborted_pass_leaks:
  assumes "bind_error e (ttl self) = None" and "\<not> reaches_read e (ttl self)"
  shows "(\<exists>err. status (iteration e d self k) = Raised (OSError err))
    \<and> created_socks (events (iteration e d self k)) = [nsock k, Suc (nsock k)]
    \<and> closed_socks (events (iteration e d self k)) = []
    \<and> open_socks (sockets (iteration e d self k))
        = insert (Suc (nsock k)) (insert (nsock k) (open_socks k))"
  using assms
  by (cases e self rule: iteration_cases)
    (simp_all add: iteration_no_sender iteration_no_send calls_read after_aborted_def)

text \<open>
  C5 does not hold of the source. In the session to the broadcast address the first pass
  creates the receiver and the sender, the send is refused, and the exception leaves the
  loop past the \<^verbatim>\<open>finally\<close> block, which only guards the read: the run ends with two
  sockets created, none closed and both open. The same happens in the pass with TTL 256 of
  a long session, where the sender cannot be given its TTL.
\<close>

theorem endpoints_left_open:
  "status (run bcast_env bcast_tracer os0) = Raised (OSError eacces)
   \<and> created_socks (events (run bcast_env bcast_tracer os0)) = [0, 1]
   \<and> used_socks (events (run bcast_env bcast_tracer os0)) = [1]
   \<and> closed_socks (events (run bcast_env bcast_tracer os0)) = []
   \<and> open_socks (sockets (run bcast_env bcast_tracer os0)) = {0, 1}
   \<and> status (iteration quiet_env ''93.184.216.34'' (long_tracer\<lparr>ttl := 256\<rparr>) os0)
       = Raised (OSError einval)
   \<and> closed_socks (events (iteration quiet_env ''93.184.216.34'' (long_tracer\<lparr>ttl := 256\<rparr>) os0))
       = []
   \<and> open_socks (sockets (iteration quiet_env ''93.184.216.34'' (long_tracer\<lparr>ttl := 256\<rparr>) os0))
       = {0, 1}"
proof -
  let ?t = "long_tracer\<lparr>ttl := 256\<rparr>"
  have "iteration quiet_env ''93.184.216.34'' ?t os0 =
      \<lparr>events = no_sender_calls ?t os0 einval, obj = ?t, sockets = after_aborted os0,
       status = Raised (OSError einval)\<rparr>"
    by (rule iteration_no_sender) (simp_all add: quiet_env_fields setsockopt_ttl_error_def)
  then have "status (iteration quiet_env ''93.184.216.34'' ?t os0) = Raised (OSError einval)"
    "closed_socks (events (iteration quiet_env ''93.184.216.34'' ?t os0)) = []"
    "open_socks (sockets (iteration quiet_env ''93.184.216.34'' ?t os0)) = {0, 1}"
    by (auto simp: calls_read after_aborted_def os0_def)
  then show ?thesis
    by (simp add: bcast_run)
qed

lemma os0_ok: "os_ok os0"
  by (simp add: os_ok_def os0_def)

subsection \<open>Where the probes go\<close>

lemma sendto_targets_iteration:
  "sendto_targets (events (iteration e d self k)) =
     map (\<lambda>t. ([], dst self, port self)) (probe_ttls (events (iteration e d self k)))"
  by (cases e self rule: iteration_cases)
    (simp_all add: iteration_forms next_ttl_def Let_def
      reader_append calls_read)

lemma loop_sendto_targets:
  "sendto_targets (events (loop e d self k)) =
     map (\<lambda>t. ([], dst self, port self)) (probe_ttls (events (loop e d self k)))"
proof (induction e d self k rule: loop.induct)
  case (1 e d self k)
  show ?case
  proof (cases "status (iteration e d self k) = Continue")
    case True
    with 1 show ?thesis
      by (simp add: loop_continue reader_append sendto_targets_iteration iteration_keeps)
  next
    case False
    then show ?thesis
      by (simp add: loop_stop sendto_targets_iteration)
  qed
qed

lemma bind_ports_iteration: "bind_ports (events (iteration e d self k)) = [port self]"
  by (cases e self rule: iteration_cases)
    (simp_all add: iteration_forms next_ttl_def Let_def
      reader_append calls_read)

lemma loop_bind_ports: "set (bind_ports (events (loop e d self k))) = {port self}"
proof (induction e d self k rule: loop.induct)
  case (1 e d self k)
  show ?case
  proof (cases "status (iteration e d self k) = Continue")
    case True
    with 1 show ?thesis
      by (simp add: loop_continue reader_append bind_ports_iteration iteration_keeps)
  next
    case False
    then show ?thesis
      by (simp add: loop_stop bind_ports_iteration)
  qed
qed

lemma run_keeps:
  "dst (obj (run e self k)) = dst self" "hops (obj (run e self k)) = hops self"
  "port (obj (run e self k)) = port self"
  by (cases "gethostbyname e (dst self)"; simp add: run_def Let_def loop_keeps)+

lemma run_sendto_targets:
  "sendto_targets (events (run e self k)) =
     map (\<lambda>t. ([], dst self, port self)) (probe_ttls (events (run e self k)))"
  by (cases "gethostbyname e (dst self)") (simp_all add: run_def Let_def loop_sendto_targets)

text \<open>
  C1, as the source has it. Every sender that a run has given its TTL makes exactly one
  \<^verbatim>\<open>sendto\<close> call, refused or not, with an empty payload, to the pair of the host string
  the session was given and the session's port. The source passes \<^verbatim>\<open>self.dst\<close> to \<^verbatim>\<open>sendto\<close>, not the address that
  \<^verbatim>\<open>gethostbyname\<close> returned before the loop.
\<close>

theorem probes_go_to_given_host:
  "sendto_targets (events (run e self k)) =
     map (\<lambda>t. ([], dst self, port self)) (probe_ttls (events (run e self k)))"
proof (cases "gethostbyname e (dst self)")
  case (Inl err)
  then show ?thesis
    by (simp add: run_def)
next
  case (Inr dst_ip)
  have "sendto_targets (events (loop e dst_ip self k)) =
      map (\<lambda>t. ([], dst self, port self)) (probe_ttls (events (loop e dst_ip self k)))"
    by (rule loop_sendto_targets)
  then show ?thesis
    by (simp add: run_resolved [OF Inr])
qed

text \<open>In the sample session the two probes are addressed to the name \<^verbatim>\<open>example.test\<close>,
  while the resolution gave \<^verbatim>\<open>93.184.216.34\<close>.\<close>

theorem probes_to_resolved_address_counterexample:
  "gethostbyname ex_env (dst ex_tracer) = Inr ''93.184.216.34''
   \<and> sendto_targets (events (run ex_env ex_tracer os0))
       = [([], ''example.test'', 33434), ([], ''example.test'', 33434)]
   \<and> sendto_targets (events (run ex_env ex_tracer os0))
       \<noteq> [([], ''93.184.216.34'', 33434), ([], ''93.184.216.34'', 33434)]"
  by (simp add: ex_resolves ex_run_events)


subsection \<open>The port\<close>

lemma random_choice_port: "random_choice e port_range \<in> {33434..33534}"
proof -
  have len: "length port_range = 101"
    by (simp only: port_range_def length_upto)
  have "random_choice e port_range \<in> set port_range"
    unfolding random_choice_def by (rule nth_mem) (simp add: len)
  then show ?thesis
    by (simp only: port_range_def set_upto)
qed

text \<open>
  C9. The constructor draws the port once, from the range 33434 to 33534, and a run does not
  change it: the object has the same port after the run, every bind of a receiver is to that
  port and every datagram is sent to that port.
\<close>

theorem port_fixed:
  assumes "Tracer_init e d h path = (out, Inr self)"
  shows "port self = random_choice e port_range
    \<and> 33434 \<le> port self \<and> port self < 33535
    \<and> port (obj (run e self k)) = port self
    \<and> set (bind_ports (events (run e self k))) \<subseteq> {port self}
    \<and> set (map (snd \<circ> snd) (sendto_targets (events (run e self k)))) \<subseteq> {port self}"
proof -
  from assms have p: "port self = random_choice e port_range"
    by (auto simp: Tracer_init_def Let_def split: option.splits)
  from p random_choice_port [of e] have range: "33434 \<le> port self \<and> port self < 33535"
    by simp
  have binds: "set (bind_ports (events (run e self k))) \<subseteq> {port self}"
    by (cases "gethostbyname e (dst self)") (simp_all add: run_def Let_def loop_bind_ports)
  have sends: "set (map (snd \<circ> snd) (sendto_targets (events (run e self k)))) \<subseteq> {port self}"
    unfolding run_sendto_targets by auto
  from p range binds sends show ?thesis
    by (simp add: run_keeps)
qed

lemma ex_init:
  "Tracer_init ex_env ''example.test'' 3 ''GeoLite2-City.mmdb'' =
     ([Print_text ''Tentando abrir o banco de dados GeoIP em GeoLite2-City.mmdb'',
       Print_text ''Banco de dados GeoIP carregado com sucesso de GeoLite2-City.mmdb''],
      Inr ex_tracer)"
  by (simp add: Tracer_init_def ex_env_def ex_tracer_def random_choice_def port_range_def
      upto.simps)

theorem port_fixed_witness:
  "Tracer_init ex_env ''example.test'' 3 ''GeoLite2-City.mmdb'' =
     ([Print_text ''Tentando abrir o banco de dados GeoIP em GeoLite2-City.mmdb'',
       Print_text ''Banco de dados GeoIP carregado com sucesso de GeoLite2-City.mmdb''],
      Inr ex_tracer)
   \<and> port ex_tracer = 33434
   \<and> port (obj (run ex_env ex_tracer os0)) = 33434
   \<and> bind_ports (events (run ex_env ex_tracer os0)) = [33434, 33434]"
proof -
  have b: "bind_ports (events (run ex_env ex_tracer os0)) = [33434, 33434]"
    by (simp add: ex_run_events)
  from port_fixed [OF ex_init, of os0] ex_init b show ?thesis
    by (simp add: ex_tracer_fields)
qed


subsection \<open>The location text does not steer the loop\<close>

lemma blank_print_reply:
  "blank_location (Print_reply t ip ms loc) = blank_location (Print_reply t ip ms loc')"
  by simp

lemma iteration_other_reader:
  "status (iteration e d (self\<lparr>geoip_reader := g\<rparr>) k) = status (iteration e d self k)"
  "sockets (iteration e d (self\<lparr>geoip_reader := g\<rparr>) k) = sockets (iteration e d self k)"
  "obj (iteration e d (self\<lparr>geoip_reader := g\<rparr>) k) = (obj (iteration e d self k))\<lparr>geoip_reader := g\<rparr>"
  "map blank_location (events (iteration e d (self\<lparr>geoip_reader := g\<rparr>) k))
     = map blank_location (events (iteration e d self k))"
  by (cases e self rule: iteration_cases;
      simp add: iteration_forms next_ttl_def Let_def
        probe_calls_def failed_calls_def no_sender_calls_def no_send_calls_def)+

lemma loop_other_reader:
  "status (loop e d (self\<lparr>geoip_reader := g\<rparr>) k) = status (loop e d self k)
   \<and> map blank_location (events (loop e d (self\<lparr>geoip_reader := g\<rparr>) k))
       = map blank_location (events (loop e d self k))
   \<and> ttl (obj (loop e d (self\<lparr>geoip_reader := g\<rparr>) k)) = ttl (obj (loop e d self k))"
proof (induction e d self k rule: loop.induct)
  case (1 e d self k)
  let ?it = "iteration e d self k"
  let ?it' = "iteration e d (self\<lparr>geoip_reader := g\<rparr>) k"
  note o = iteration_other_reader [where e = e and d = d and self = self and g = g and k = k]
  show ?case
  proof (cases "status ?it = Continue")
    case False
    then have "loop e d self k = ?it" "loop e d (self\<lparr>geoip_reader := g\<rparr>) k = ?it'"
      by (simp_all add: loop_stop o(1))
    then show ?thesis
      by (simp add: o)
  next
    case True
    then have c': "status ?it' = Continue"
      by (simp add: o(1))
    from "1.IH" [OF refl True] show ?thesis
      by (simp add: loop_continue [OF True] loop_continue [OF c'] o)
  qed
qed

text \<open>
  C7. The lookup always gives a text: for an address the database does not have, the
  "unknown location" text; for any other failure of the reader, the error text followed by
  the failure's own text. Whatever the reader does, the run is the same but for the location
  texts in the reply lines: the same calls in the same order, the same way out of the loop,
  the same final TTL.
\<close>

theorem geoip_failure_is_cosmetic:
  "(geoip_reader self ip = AddressNotFoundError \<longrightarrow> get_geoip self ip = msg_unknown)
   \<and> (geoip_reader self ip = Other_exception err \<longrightarrow> get_geoip self ip = msg_geo_error @ err)
   \<and> status (run e (self\<lparr>geoip_reader := g\<rparr>) k) = status (run e self k)
   \<and> map blank_location (events (run e (self\<lparr>geoip_reader := g\<rparr>) k))
       = map blank_location (events (run e self k))
   \<and> ttl (obj (run e (self\<lparr>geoip_reader := g\<rparr>) k)) = ttl (obj (run e self k))"
proof -
  have "status (run e (self\<lparr>geoip_reader := g\<rparr>) k) = status (run e self k)
   \<and> map blank_location (events (run e (self\<lparr>geoip_reader := g\<rparr>) k))
       = map blank_location (events (run e self k))
   \<and> ttl (obj (run e (self\<lparr>geoip_reader := g\<rparr>) k)) = ttl (obj (run e self k))"
    using loop_other_reader [where e = e and self = self and g = g and k = k]
    by (cases "gethostbyname e (dst self)") (simp_all add: run_def Let_def)
  then show ?thesis
    by (simp add: get_geoip_def)
qed

theorem geoip_failure_is_cosmetic_witness:
  "geoip_reader (ex_tracer\<lparr>geoip_reader := broken_reader\<rparr>) ''10.0.0.1'' = AddressNotFoundError
   \<and> get_geoip (ex_tracer\<lparr>geoip_reader := broken_reader\<rparr>) ''10.0.0.1'' = msg_unknown
   \<and> geoip_reader (ex_tracer\<lparr>geoip_reader := broken_reader\<rparr>) ''93.184.216.34''
       = Other_exception ''corrupt database''
   \<and> get_geoip (ex_tracer\<lparr>geoip_reader := broken_reader\<rparr>) ''93.184.216.34''
       = msg_geo_error @ ''corrupt database''
   \<and> status (run ex_env (ex_tracer\<lparr>geoip_reader := broken_reader\<rparr>) os0) = Break_destination
   \<and> hop_ttls (map blank_location
         (events (run ex_env (ex_tracer\<lparr>geoip_reader := broken_reader\<rparr>) os0))) = [1, 2]"
proof -
  let ?t = "ex_tracer\<lparr>geoip_reader := broken_reader\<rparr>"
  have h1: "geoip_reader ?t ''10.0.0.1'' = AddressNotFoundError"
    and h2: "geoip_reader ?t ''93.184.216.34'' = Other_exception ''corrupt database''"
    by (simp_all add: broken_reader_def)
  from geoip_failure_is_cosmetic [of ?t "''10.0.0.1''" _ ex_env broken_reader os0] h1
  have a: "get_geoip ?t ''10.0.0.1'' = msg_unknown"
    by blast
  from geoip_failure_is_cosmetic
    [of ?t "''93.184.216.34''" "''corrupt database''" ex_env broken_reader os0] h2
  have b: "get_geoip ?t ''93.184.216.34'' = msg_geo_error @ ''corrupt database''"
    by blast
  from geoip_failure_is_cosmetic [of ex_tracer _ _ ex_env broken_reader os0]
  have c: "status (run ex_env ?t os0) = status (run ex_env ex_tracer os0)"
    and d: "map blank_location (events (run ex_env ?t os0))
      = map blank_location (events (run ex_env ex_tracer os0))"
    by blast+
  show ?thesis
    using h1 h2 a b by (simp add: c d ex_run_status ex_run_events)
qed

subsection \<open>The round-trip time\<close>

lemma round_half_even_cases:
  "round_half_even y = \<lfloor>y\<rfloor> \<and> y - of_int \<lfloor>y\<rfloor> \<le> 1 / 2
   \<or> round_half_even y = \<lfloor>y\<rfloor> + 1 \<and> 1 / 2 \<le> y - of_int \<lfloor>y\<rfloor>"
  by (auto simp: round_half_even_def Let_def)

lemma round_half_even_nonneg:
  assumes "0 \<le> y"
  shows "0 \<le> round_half_even y"
proof -
  from assms have "0 \<le> \<lfloor>y\<rfloor>"
    by simp
  with round_half_even_cases [of y] show ?thesis
    by auto
qed

lemma round_half_even_near: "\<bar>of_int (round_half_even y) - y\<bar> \<le> 1 / 2"
proof -
  have "of_int \<lfloor>y\<rfloor> \<le> y" "y < of_int \<lfloor>y\<rfloor> + 1"
    by linarith+
  with round_half_even_cases [of y] show ?thesis
    by auto
qed

lemma pow2_pos: "0 < pow2 n"
  by (simp add: pow2_def)

text \<open>Rounding to a double keeps the sign, so the difference of two floats in order, its
  product with 1000 and the rounding of that to two places are not negative.\<close>

lemma binary64_nonneg:
  assumes "0 \<le> x"
  shows "0 \<le> binary64 x"
proof (cases "x = 0")
  case True
  then show ?thesis
    by (simp add: binary64_def)
next
  case False
  let ?u = "pow2 (exponent \<bar>x\<bar> - 52)"
  have "0 \<le> x / ?u"
    using assms pow2_pos [of "exponent \<bar>x\<bar> - 52"] by simp
  then have "0 \<le> round_half_even (x / ?u)"
    by (rule round_half_even_nonneg)
  then have "0 \<le> of_int (round_half_even (x / ?u)) * ?u"
    using pow2_pos [of "exponent \<bar>x\<bar> - 52"] by simp
  then show ?thesis
    using False by (simp add: binary64_def Let_def)
qed

lemma float_sub_nonneg: "b \<le> a \<Longrightarrow> 0 \<le> float_sub a b"
  unfolding float_sub_def by (rule binary64_nonneg) simp

lemma float_mul_nonneg: "0 \<le> a \<Longrightarrow> 0 \<le> b \<Longrightarrow> 0 \<le> float_mul a b"
  unfolding float_mul_def by (rule binary64_nonneg) simp

lemma py_round_nonneg:
  assumes "0 \<le> x"
  shows "0 \<le> py_round x n"
proof -
  have "0 \<le> x * 10 ^ n"
    using assms by simp
  then have "0 \<le> round_half_even (x * 10 ^ n)"
    by (rule round_half_even_nonneg)
  then have "0 \<le> (of_int (round_half_even (x * 10 ^ n)) :: rat) / 10 ^ n"
    by simp
  then show ?thesis
    unfolding py_round_def by (rule binary64_nonneg)
qed

text \<open>Three computations as the source makes them. A start at 0.0 and an end at the double
  of 0.000125: the product with 1000 is the double 0.125 and its rounding is the double of
  0.12. The 12.34 ms of the sample session. A clock set back by one second.\<close>

lemma time_cost_examples:
  "float_mul (float_sub (binary64 (125 / 1000000)) 0) 1000 = 1 / 8"
  "py_round (float_mul (float_sub (binary64 (125 / 1000000)) 0) 1000) 2 = binary64 (12 / 100)"
  "py_round (float_mul (float_sub (100 + 1234 / 100000) 100) 1000) 2 = binary64 (617 / 50)"
  "py_round (float_mul (float_sub 99 100) 1000) 2 = - 1000"
  by code_simp+

text \<open>
  C8, as the source has it. In a pass that reaches its read the hop line carries a round-trip
  time exactly when the read returned an address: then the line is the reply line with
  \<^verbatim>\<open>round((end_time - start_time) * 1000, 2)\<close>, each operation made on doubles, and
  otherwise it is the no-reply line, which has no time. The time is not negative when the
  end timestamp is not before the start timestamp; the source takes both from the wall clock
  and does nothing else to keep the difference from being negative.
\<close>

theorem round_trip_time_iff_captured:
  assumes "reaches_read e (ttl self)"
  shows "hop_lines (events (iteration e d self k)) =
      (case recvfrom e (ttl self) of
         Recv_ok ip p te \<Rightarrow>
           [Print_reply (ttl self) ip
              (py_round (float_mul (float_sub te (clock e (ttl self))) 1000) 2)
              (get_geoip self ip)]
       | Recv_error \<Rightarrow> [Print_noreply (ttl self)])
    \<and> (clock e (ttl self) \<le> te \<longrightarrow>
          0 \<le> py_round (float_mul (float_sub te (clock e (ttl self))) 1000) 2)"
proof -
  have "hop_lines (events (iteration e d self k)) =
      (case recvfrom e (ttl self) of
         Recv_ok ip p te \<Rightarrow>
           [Print_reply (ttl self) ip
              (py_round (float_mul (float_sub te (clock e (ttl self))) 1000) 2)
              (get_geoip self ip)]
       | Recv_error \<Rightarrow> [Print_noreply (ttl self)])"
    using assms
    by (cases "recvfrom e (ttl self)")
      (simp_all add: iteration_read next_ttl_def Let_def reader_append probe_calls_read)
  moreover have "0 \<le> py_round (float_mul (float_sub te (clock e (ttl self))) 1000) 2"
    if "clock e (ttl self) \<le> te"
  proof -
    from that have "0 \<le> float_sub te (clock e (ttl self))"
      by (rule float_sub_nonneg)
    then have "0 \<le> float_mul (float_sub te (clock e (ttl self))) 1000"
      by (rule float_mul_nonneg) simp
    then show ?thesis
      by (rule py_round_nonneg)
  qed
  ultimately show ?thesis
    by simp
qed

theorem round_trip_time_iff_captured_witness:
  "reaches_read ex_env (ttl (ex_tracer\<lparr>ttl := 2\<rparr>))
   \<and> clock ex_env (ttl (ex_tracer\<lparr>ttl := 2\<rparr>)) \<le> 100 + 1234 / 100000
   \<and> hop_lines (events (iteration ex_env ''93.184.216.34'' (ex_tracer\<lparr>ttl := 2\<rparr>) os0))
       = [Print_reply 2 ''93.184.216.34'' (binary64 (617 / 50))
            ''Testland (Lat: 0.0, Lon: 0.0)'']
   \<and> 0 \<le> binary64 (617 / 50)"
proof -
  let ?t = "ex_tracer\<lparr>ttl := 2\<rparr>"
  let ?d = "''93.184.216.34''"
  have h: "reaches_read ex_env (ttl ?t)"
    and t: "ttl ?t = 2"
    and c: "clock ex_env 2 = 100"
    and r: "recvfrom ex_env 2 = Recv_ok ?d 0 (100 + 1234 / 100000)"
    and g: "get_geoip ?t ?d = ''Testland (Lat: 0.0, Lon: 0.0)''"
    by (simp_all add: ex_env_def ex_tracer_def get_geoip_def ex_reader_def truthy_def str_opt_def
        reaches_read_def setsockopt_ttl_error_def)
  have le: "clock ex_env (ttl ?t) \<le> 100 + 1234 / 100000"
    unfolding t c by simp
  note fact = round_trip_time_iff_captured [OF h, of ?d os0 "100 + 1234 / 100000"]
  have line: "hop_lines (events (iteration ex_env ?d ?t os0))
      = [Print_reply 2 ?d (binary64 (617 / 50)) ''Testland (Lat: 0.0, Lon: 0.0)'']"
    using fact [THEN conjunct1]
    by (simp only: t r recv_result.case c time_cost_examples g)
  have "0 \<le> py_round (float_mul (float_sub (100 + 1234 / 100000) (clock ex_env (ttl ?t))) 1000) 2"
    using fact [THEN conjunct2] le by (rule mp)
  then have pos: "0 \<le> binary64 (617 / 50)"
    by (simp only: t c time_cost_examples)
  from h le line pos show ?thesis
    by (intro conjI)
qed

theorem round_trip_time_nonnegative_counterexample:
  "hop_lines (events (iteration late_env ''93.184.216.34'' ex_tracer os0))
     = [Print_reply 1 ''10.0.0.1'' (- 1000) ''Testland (Lat: 0.0, Lon: 0.0)'']
   \<and> (- 1000 :: rat) < 0"
proof -
  have rr: "reaches_read late_env (ttl ex_tracer)"
    and t: "ttl ex_tracer = 1"
    and c: "clock late_env 1 = 100"
    and r: "recvfrom late_env 1 = Recv_ok ''10.0.0.1'' 0 99"
    and g: "get_geoip ex_tracer ''10.0.0.1'' = ''Testland (Lat: 0.0, Lon: 0.0)''"
    by (simp_all add: reaches_read_def setsockopt_ttl_error_def late_env_def ex_env_def
        ex_tracer_def get_geoip_def ex_reader_def truthy_def str_opt_def)
  have "hop_lines (events (iteration late_env ''93.184.216.34'' ex_tracer os0))
      = [Print_reply (ttl ex_tracer) ''10.0.0.1''
           (py_round (float_mul (float_sub 99 (clock late_env (ttl ex_tracer))) 1000) 2)
           (get_geoip ex_tracer ''10.0.0.1'')]"
    unfolding iteration_read [OF rr] t r
    by (simp add: next_ttl_def Let_def reader_append probe_calls_read t)
  then have "hop_lines (events (iteration late_env ''93.184.216.34'' ex_tracer os0))
      = [Print_reply 1 ''10.0.0.1'' (- 1000) ''Testland (Lat: 0.0, Lon: 0.0)'']"
    by (simp only: t c time_cost_examples g)
  then show ?thesis
    by simp
qed

end
